theory Spec2Isabelle
  imports Complex_Main
begin

section \<open>Strings, numbers and values of the host language\<close>

text \<open>
  The importer (\<^verbatim>\<open>module/apps/actor-importer.js\<close>) works on JavaScript strings, which
  are sequences of UTF-16 code units. A string is modelled as the list of its code units,
  so that \<^verbatim>\<open>length\<close>, \<^verbatim>\<open>trim\<close> and the character classes of the regular expression
  literals of the source are the ones of the language. \<open>js\<close> embeds an ASCII literal.
\<close>

type_synonym jstring = "nat list"

definition js :: "string \<Rightarrow> jstring" where
  "js s = map of_char s"

text \<open>
  White space as \<^verbatim>\<open>String.prototype.trim\<close> and the class \<^verbatim>\<open>\s\<close> see it (WhiteSpace and
  LineTerminator of ECMAScript), and the line terminators that \<^verbatim>\<open>.\<close> does not match.
\<close>

definition is_space :: "nat \<Rightarrow> bool" where
  "is_space c \<longleftrightarrow>
     c = 9 \<or> c = 10 \<or> c = 11 \<or> c = 12 \<or> c = 13 \<or> c = 32 \<or> c = 160 \<or> c = 5760 \<or>
     (8192 \<le> c \<and> c \<le> 8202) \<or> c = 8232 \<or> c = 8233 \<or> c = 8239 \<or> c = 8287 \<or>
     c = 12288 \<or> c = 65279"

definition is_line_terminator :: "nat \<Rightarrow> bool" where
  "is_line_terminator c \<longleftrightarrow> c = 10 \<or> c = 13 \<or> c = 8232 \<or> c = 8233"

definition is_digit :: "nat \<Rightarrow> bool" where
  "is_digit c \<longleftrightarrow> 48 \<le> c \<and> c \<le> 57"

definition trim :: "jstring \<Rightarrow> jstring" where
  "trim s = rev (dropWhile is_space (rev (dropWhile is_space s)))"

fun startsWith :: "jstring \<Rightarrow> jstring \<Rightarrow> bool" where
  "startsWith s [] = True"
| "startsWith [] (p # ps) = False"
| "startsWith (c # cs) (p # ps) = (c = p \<and> startsWith cs ps)"

text \<open>
  \<^verbatim>\<open>s.replace(pat, rep)\<close> with a string \<^verbatim>\<open>pat\<close>: the first occurrence of \<^verbatim>\<open>pat\<close> is
  replaced, and the empty pattern occurs at index 0. The replacement strings of the source
  (\<^verbatim>\<open>'\n'\<close>, \<^verbatim>\<open>' '\<close> and \<^verbatim>\<open>''\<close>) hold no \<^verbatim>\<open>$\<close> pattern.
\<close>

fun replace_str :: "jstring \<Rightarrow> jstring \<Rightarrow> jstring \<Rightarrow> jstring" where
  "replace_str [] pat rep = (if pat = [] then rep else [])"
| "replace_str (c # cs) pat rep =
     (if startsWith (c # cs) pat then rep @ drop (length pat) (c # cs)
      else c # replace_str cs pat rep)"

text \<open>
  Numbers. A finite number is modelled by its exact value (the rounding of IEEE doubles is not
  modelled); \<open>NaN\<close> and the two infinities are values of their own.
\<close>

datatype jsnum = NaN | Fin rat | PosInf | NegInf

fun num_times :: "jsnum \<Rightarrow> rat \<Rightarrow> jsnum" where
  "num_times NaN k = NaN"
| "num_times (Fin r) k = Fin (r * k)"
| "num_times PosInf k = (if 0 < k then PosInf else if k < 0 then NegInf else NaN)"
| "num_times NegInf k = (if 0 < k then NegInf else if k < 0 then PosInf else NaN)"

fun num_plus :: "jsnum \<Rightarrow> rat \<Rightarrow> jsnum" where
  "num_plus (Fin r) k = Fin (r + k)"
| "num_plus n k = n"

fun num_le :: "jsnum \<Rightarrow> rat \<Rightarrow> bool" where
  "num_le NaN k = False"
| "num_le (Fin r) k = (r \<le> k)"
| "num_le PosInf k = False"
| "num_le NegInf k = True"

fun num_gt :: "jsnum \<Rightarrow> rat \<Rightarrow> bool" where
  "num_gt NaN k = False"
| "num_gt (Fin r) k = (k < r)"
| "num_gt PosInf k = True"
| "num_gt NegInf k = False"

text \<open>The scalar values that the parsed record holds: numbers and strings.\<close>

datatype jsval = JNum jsnum | JStr jstring

text \<open>
  What the importer takes from its host: the coercion \<^verbatim>\<open>Number(s)\<close> of a string (its
  parsing of floating-point literals is left to the host), the conversion of a number to a
  string, and the string that \<^verbatim>\<open>game.i18n.localize('CoC7.ImportedUnnamedCharacter')\<close>
  returns.
\<close>

record host =
  toNumber :: "jstring \<Rightarrow> jsnum"
  numToString :: "jsnum \<Rightarrow> jstring"
  unnamedCharacter :: jstring

text \<open>\<^verbatim>\<open>Number(x)\<close> of a capture: \<^verbatim>\<open>Number(undefined)\<close> is \<open>NaN\<close>.\<close>

definition Number :: "host \<Rightarrow> jstring option \<Rightarrow> jsnum" where
  "Number H x = (case x of None \<Rightarrow> NaN | Some s \<Rightarrow> toNumber H s)"

text \<open>\<^verbatim>\<open>ToNumber\<close> and \<^verbatim>\<open>ToString\<close> of a value, as the operators of the source apply them.\<close>

definition to_num :: "host \<Rightarrow> jsval \<Rightarrow> jsnum" where
  "to_num H v = (case v of JNum n \<Rightarrow> n | JStr s \<Rightarrow> toNumber H s)"

definition to_str :: "host \<Rightarrow> jsval \<Rightarrow> jstring" where
  "to_str H v = (case v of JNum n \<Rightarrow> numToString H n | JStr s \<Rightarrow> s)"

section \<open>The edition converter\<close>

text \<open>
  The parsed record is a JavaScript object: a finite map from property names to values, where
  an absent key reads as \<^verbatim>\<open>undefined\<close>.
\<close>

type_synonym fields = "string \<rightharpoonup> jsval"

text \<open>\<^verbatim>\<open>creature[key] *= 5\<close> under \<^verbatim>\<open>typeof creature[key] !== 'undefined'\<close>.\<close>

definition times5 :: "host \<Rightarrow> fields \<Rightarrow> string \<Rightarrow> fields" where
  "times5 H creature key =
     (case creature key of
        None \<Rightarrow> creature
      | Some v \<Rightarrow> creature(key \<mapsto> JNum (num_times (to_num H v) 5)))"

text \<open>
  \<^verbatim>\<open>creature.edu + 90 - 18\<close>: on a number the sum; on a string \<^verbatim>\<open>+\<close> concatenates the
  text of 90, and the subtraction coerces the result to a number.
\<close>

definition edu_remap :: "host \<Rightarrow> jsval \<Rightarrow> jsnum" where
  "edu_remap H v =
     (case v of
        JNum n \<Rightarrow> num_plus (num_plus n 90) (- 18)
      | JStr s \<Rightarrow> num_plus (toNumber H (s @ js ''90'')) (- 18))"

definition convert_edu :: "host \<Rightarrow> fields \<Rightarrow> fields" where
  "convert_edu H creature =
     (case creature ''edu'' of
        None \<Rightarrow> creature
      | Some v \<Rightarrow>
          if num_le (to_num H v) 18 then creature(''edu'' \<mapsto> JNum (num_times (to_num H v) 5))
          else if num_le (to_num H v) 26 then creature(''edu'' \<mapsto> JNum (edu_remap H v))
          else creature(''edu'' \<mapsto> JNum (Fin 99)))"

definition convert_db :: "fields \<Rightarrow> fields" where
  "convert_db creature =
     (case creature ''db'' of
        None \<Rightarrow> creature
      | Some v \<Rightarrow>
          if v = JStr (js ''-1d4'') then creature(''db'' \<mapsto> JNum (Fin (- 1)))
          else if v = JStr (js ''-1d6'') then creature(''db'' \<mapsto> JNum (Fin (- 2)))
          else creature)"

text \<open>\<^verbatim>\<open>convert7E\<close> (lines 1111 to 1141).\<close>

definition convert7E :: "host \<Rightarrow> fields \<Rightarrow> fields" where
  "convert7E H creature =
     convert_db (convert_edu H
       (foldl (times5 H) creature [''str'', ''con'', ''siz'', ''dex'', ''app'', ''int'', ''pow'']))"

text \<open>
  \<^verbatim>\<open>needsConversion\<close> (lines 1043 to 1063): the result starts as true and is set to false at every key of the
  list whose value is defined and greater than 30.
\<close>

definition needsConversion :: "host \<Rightarrow> fields \<Rightarrow> bool" where
  "needsConversion H npc =
     foldl (\<lambda>needsConversionResult key.
              (case npc key of
                 None \<Rightarrow> needsConversionResult
               | Some v \<Rightarrow> if num_gt (to_num H v) 30 then False else needsConversionResult))
       True [''str'', ''con'', ''siz'', ''dex'', ''app'', ''int'', ''pow'', ''edu'']"

text \<open>
  The condition of \<^verbatim>\<open>createActor\<close> (lines 1086 to 1092): the record goes through
  \<^verbatim>\<open>convert7E\<close> when the mode is
  \<^verbatim>\<open>'coc-guess'\<close> and \<^verbatim>\<open>needsConversion\<close> holds, or when the mode is \<^verbatim>\<open>'coc-convert'\<close>.
\<close>

definition conversion_applies :: "host \<Rightarrow> string \<Rightarrow> fields \<Rightarrow> bool" where
  "conversion_applies H convertFrom6E character \<longleftrightarrow>
     (convertFrom6E = ''coc-guess'' \<and> needsConversion H character) \<or>
     convertFrom6E = ''coc-convert''"

definition createActor_convert :: "host \<Rightarrow> string \<Rightarrow> fields \<Rightarrow> fields" where
  "createActor_convert H convertFrom6E character =
     (if conversion_applies H convertFrom6E character then convert7E H character else character)"

section \<open>The field extractor\<close>

text \<open>
  The result of \<^verbatim>\<open>regExp.exec(text)\<close> when it is not null: the matched text
  \<^verbatim>\<open>check[0]\<close>, its offset \<^verbatim>\<open>check.index\<close>, and the object \<^verbatim>\<open>check.groups\<close>, which is
  \<^verbatim>\<open>undefined\<close> for an expression with no named group and otherwise lists the named groups
  of the expression in their order, each with the text it captured or \<^verbatim>\<open>undefined\<close>.
\<close>

record rmatch =
  source :: jstring
  index :: nat
  groups :: "(string \<times> jstring option) list option"

text \<open>
  The expressions themselves come from \<^verbatim>\<open>CoC7ActorImporterRegExp\<close>
  (\<^verbatim>\<open>actor-importer-regexp.js\<close>), which the importer receives through \<^verbatim>\<open>this.regEx\<close> and
  \<^verbatim>\<open>this.keys\<close>. A compiled expression (one without the global or sticky flag, so that
  \<^verbatim>\<open>exec\<close> keeps no state) is taken as the function from a text to its first match.
\<close>

type_synonym regexp = "jstring \<Rightarrow> rmatch option"

text \<open>
  The pattern set of one language: \<open>regEx\<close> and \<open>keys\<close> are \<^verbatim>\<open>this.regEx[key]\<close> and
  \<^verbatim>\<open>this.keys[key]\<close> after \<^verbatim>\<open>getRegEx\<close>; \<open>diceShort\<close> is the replacement that
  \<^verbatim>\<open>translateRoll\<close> builds from \<^verbatim>\<open>keys.diceShort\<close> (absent when the key is undefined);
  \<open>halfdbRegExp\<close> and \<open>fulldbRegExp\<close> are the two expressions that \<^verbatim>\<open>processCombat\<close>
  builds from \<^verbatim>\<open>keys.halfdb\<close>, \<^verbatim>\<open>keys.fulldb\<close> and the damage bonus given as argument
  (absent when \<^verbatim>\<open>new RegExp\<close> rejects the text with a SyntaxError).
\<close>

record patterns =
  regEx :: "string \<Rightarrow> regexp option"
  keys :: "string \<Rightarrow> regexp option"
  diceShort :: "(jstring \<Rightarrow> jstring) option"
  halfdbRegExp :: "jstring \<Rightarrow> regexp option"
  fulldbRegExp :: "jstring \<Rightarrow> regexp option"

datatype error = TypeError | SyntaxError

datatype otype = asString | asNumber

text \<open>The options of \<^verbatim>\<open>check\<close>, with the defaults of its signature.\<close>

record options =
  removeFromText :: bool
  saveKeys :: bool
  otype :: otype
  text_opt :: "jstring option"
  requiredGroup :: "string option"

definition defaults :: options where
  "defaults = \<lparr>removeFromText = True, saveKeys = True, otype = asString,
                text_opt = None, requiredGroup = None\<rparr>"

text \<open>The entries of a weapon and of a skill, as \<^verbatim>\<open>processCombat\<close> builds them.\<close>

datatype percent = PFalse | PTrue | PNum jsnum

record range_band =
  band_value :: nat
  band_damage :: jstring

record weapon =
  w_name :: jstring
  w_type :: string
  skill_id :: percent
  range_normal :: range_band
  range_long :: range_band
  range_extreme :: range_band
  prop_shotgun :: bool
  prop_rngd :: bool
  prop_melee :: bool
  prop_ahdb :: bool
  prop_addb :: bool

record skill =
  s_name :: jstring
  s_value :: jsnum
  s_push :: bool

text \<open>
  The importer object: the text buffer \<^verbatim>\<open>this.text\<close>, the record \<^verbatim>\<open>this.parsed\<close> (its
  scalar properties as a map, its three lists apart, each absent until its first entry) and
  the warnings given to \<^verbatim>\<open>ui.notifications.warn\<close>. The named groups of the pattern set are
  taken to be other names than \<^verbatim>\<open>skills\<close>, \<^verbatim>\<open>attacks\<close> and \<^verbatim>\<open>spells\<close>.
\<close>

record importer =
  this_text :: jstring
  parsed :: fields
  parsed_skills :: "skill list option"
  parsed_attacks :: "weapon list option"
  parsed_spells :: "jstring list option"
  warnings :: "string list"

definition lookup_regExp :: "patterns \<Rightarrow> string \<Rightarrow> regexp option" where
  "lookup_regExp P regExKey =
     (case regEx P regExKey of Some r \<Rightarrow> Some r | None \<Rightarrow> keys P regExKey)"

text \<open>\<^verbatim>\<open>String(x)\<close> of a capture: \<^verbatim>\<open>String(undefined)\<close> is the text \<^verbatim>\<open>undefined\<close>.\<close>

definition String_of :: "jstring option \<Rightarrow> jstring" where
  "String_of x = (case x of None \<Rightarrow> js ''undefined'' | Some s \<Rightarrow> s)"

text \<open>One turn of the loop over \<^verbatim>\<open>Object.keys(check.groups)\<close>.\<close>

definition save_key :: "host \<Rightarrow> otype \<Rightarrow> fields \<Rightarrow> string \<times> jstring option \<Rightarrow> fields" where
  "save_key H t p kv =
     (case t of
        asString \<Rightarrow> p(fst kv \<mapsto> JStr (replace_str (String_of (snd kv)) [10] [32]))
      | asNumber \<Rightarrow>
          (let value = Number H (snd kv)
           in if value \<noteq> NaN then p(fst kv \<mapsto> JNum (Number H (snd kv))) else p))"

text \<open>\<^verbatim>\<open>(check.groups || {})[key]\<close>, where an absent group reads as \<^verbatim>\<open>undefined\<close>.\<close>

definition group :: "rmatch \<Rightarrow> string \<Rightarrow> jstring option" where
  "group m key =
     (case groups m of
        None \<Rightarrow> None
      | Some gs \<Rightarrow> (case map_of gs key of None \<Rightarrow> None | Some v \<Rightarrow> v))"

text \<open>
  \<^verbatim>\<open>check\<close> (lines 100 to 152) returns \<^verbatim>\<open>false\<close> (here \<open>None\<close>) or the groups of the match with its source
  and index (here the match). It throws a TypeError at \<^verbatim>\<open>Object.keys(check.groups)\<close> when
  the keys are to be saved and the expression has no named group; the buffer has been
  updated by then, so the importer is returned beside the result in every case.
\<close>

definition check ::
  "host \<Rightarrow> patterns \<Rightarrow> string \<Rightarrow> options \<Rightarrow> importer \<Rightarrow> (error + rmatch option) \<times> importer"
where
  "check H P regExKey opts this =
     (case lookup_regExp P regExKey of
        None \<Rightarrow> (Inr None, this)
      | Some regExp \<Rightarrow>
          (case regExp (case text_opt opts of None \<Rightarrow> this_text this | Some t \<Rightarrow> t) of
             None \<Rightarrow> (Inr None, this)
           | Some chk \<Rightarrow>
               if (case requiredGroup opts of None \<Rightarrow> True | Some g \<Rightarrow> group chk g \<noteq> None)
               then
                 (let this1 =
                        (if removeFromText opts
                         then this\<lparr>this_text :=
                                trim (replace_str (this_text this) (trim (source chk)) [10])\<rparr>
                         else this)
                  in if saveKeys opts
                     then (case groups chk of
                             None \<Rightarrow> (Inl TypeError, this1)
                           | Some gs \<Rightarrow>
                               (Inr (Some chk),
                                this1\<lparr>parsed := foldl (save_key H (otype opts)) (parsed this1) gs\<rparr>))
                     else (Inr (Some chk), this1))
               else (Inr None, this)))"

section \<open>Text helpers of the sub-parsers\<close>

text \<open>
  \<^verbatim>\<open>cleanString\<close> (lines 41 to 46): every \<^verbatim>\<open>\n\<close> and \<^verbatim>\<open>\r\<close> becomes a space, the leading white space
  goes (\<^verbatim>\<open>/^\s*/\<close>), and so does the first match of \<^verbatim>\<open>/\s*\.?\s*\.?$/\<close>: the text from the
  leftmost position where white space, at most one full stop, white space and at most one
  full stop reach the end.
\<close>

definition is_newline :: "nat \<Rightarrow> bool" where
  "is_newline c \<longleftrightarrow> c = 10 \<or> c = 13"

definition drop_dot :: "jstring \<Rightarrow> jstring" where
  "drop_dot s = (case s of [] \<Rightarrow> [] | c # cs \<Rightarrow> if c = 46 then cs else c # cs)"

definition is_tail :: "jstring \<Rightarrow> bool" where
  "is_tail s \<longleftrightarrow>
     drop_dot (dropWhile is_space (drop_dot (dropWhile is_space s))) = []"

fun strip_tail :: "jstring \<Rightarrow> jstring" where
  "strip_tail [] = []"
| "strip_tail (c # cs) = (if is_tail (c # cs) then [] else c # strip_tail cs)"

definition cleanString :: "jstring \<Rightarrow> jstring" where
  "cleanString s =
     strip_tail (dropWhile is_space (map (\<lambda>c. if is_newline c then 32 else c) s))"

text \<open>\<^verbatim>\<open>translateRoll\<close> (lines 55 to 66) on a string.\<close>

definition translateRoll :: "patterns \<Rightarrow> jstring \<Rightarrow> jstring" where
  "translateRoll P s = (case diceShort P of None \<Rightarrow> s | Some f \<Rightarrow> f s)"


text \<open>\<^verbatim>\<open>s.replace(/([\n\r]+)/g, ' ')\<close>: every maximal run of line breaks becomes one space.\<close>

fun collapse_breaks :: "bool \<Rightarrow> jstring \<Rightarrow> jstring" where
  "collapse_breaks in_run [] = []"
| "collapse_breaks in_run (c # cs) =
     (if is_newline c
      then (if in_run then collapse_breaks True cs else 32 # collapse_breaks True cs)
      else c # collapse_breaks False cs)"


text \<open>\<^verbatim>\<open>damage.split('/')\<close>.\<close>

fun split_slash :: "jstring \<Rightarrow> jstring \<Rightarrow> jstring list" where
  "split_slash cur [] = [cur]"
| "split_slash cur (c # cs) =
     (if c = 47 then cur # split_slash [] cs else split_slash (cur @ [c]) cs)"

section \<open>The spell sub-parser\<close>

text \<open>\<^verbatim>\<open>processSpells\<close> (lines 354 to 370).\<close>

text \<open>
  The entries of a list of the parsed record, which an undefined list does not have:
  \<^verbatim>\<open>if (typeof this.parsed.spells === 'undefined') this.parsed.spells = []\<close> comes before every
  \<^verbatim>\<open>push\<close>.
\<close>

definition entries :: "'a list option \<Rightarrow> 'a list" where
  "entries l = (case l of None \<Rightarrow> [] | Some xs \<Rightarrow> xs)"



section \<open>The combat sub-parser\<close>

text \<open>
  A run of the sub-parser returns, throws, or does not return: the inner loop that strips the
  damage-bonus terms has no iteration budget.
\<close>

datatype 'a outcome = Returned 'a | Thrown error | Diverged

text \<open>
  The weapon entry built from the name, the carried percentage, the flags and the damage
  (lines 261 to 292).
\<close>

definition weapon_data ::
  "jstring \<Rightarrow> percent \<Rightarrow> bool \<Rightarrow> bool \<Rightarrow> bool \<Rightarrow> jstring \<Rightarrow> weapon"
where
  "weapon_data name lastPercent isRanged ahdb addb damage =
     (let damages = split_slash [] damage;
          isShotgun = (length damages = 3)
      in \<lparr>w_name = name, w_type = ''weapon'', skill_id = lastPercent,
          range_normal = \<lparr>band_value = (if isShotgun then 10 else 0), band_damage = damages ! 0\<rparr>,
          range_long = \<lparr>band_value = (if isShotgun then 20 else 0),
                        band_damage = (if isShotgun then damages ! 1 else [])\<rparr>,
          range_extreme = \<lparr>band_value = (if isShotgun then 50 else 0),
                           band_damage = (if isShotgun then damages ! 2 else [])\<rparr>,
          prop_shotgun = isShotgun,
          prop_rngd = (isRanged \<or> isShotgun),
          prop_melee = (\<not> (isRanged \<or> isShotgun)),
          prop_ahdb = ahdb,
          prop_addb = addb\<rparr>)"

text \<open>
  The inner loop \<^verbatim>\<open>do { ... } while (found)\<close> (lines 234 to 260). Each turn matches the half-damage-bonus
  expression, or else the full-damage-bonus one, and removes the match from the damage text.
  A turn whose removal does not shorten the text leaves it as it is (the first occurrence of
  a non-empty text is removed whole), so the next turn is the same turn again for ever.
\<close>

function strip_db ::
  "regexp option \<Rightarrow> regexp option \<Rightarrow> jstring \<Rightarrow> bool \<Rightarrow> bool \<Rightarrow> (jstring \<times> bool \<times> bool) outcome"
where
  "strip_db half full damage ahdb addb =
     (case half of
        None \<Rightarrow> Thrown SyntaxError
      | Some h \<Rightarrow>
          (case h damage of
             Some found \<Rightarrow>
               (if length (replace_str damage (source found) []) < length damage
                then strip_db half full (replace_str damage (source found) []) True addb
                else Diverged)
           | None \<Rightarrow>
               (case full of
                  None \<Rightarrow> Thrown SyntaxError
                | Some f \<Rightarrow>
                    (case f damage of
                       Some found \<Rightarrow>
                         (if length (replace_str damage (source found) []) < length damage
                          then strip_db half full (replace_str damage (source found) []) ahdb True
                          else Diverged)
                     | None \<Rightarrow> Returned (damage, ahdb, addb)))))"
  by pat_completeness auto
termination
  by (relation "measure (\<lambda>(half, full, damage, ahdb, addb). length damage)") auto

text \<open>\<^verbatim>\<open>this.parsed.db.replace(/^[-+]/, '')\<close>.\<close>

definition strip_sign :: "jstring \<Rightarrow> jstring" where
  "strip_sign d = (case d of [] \<Rightarrow> [] | c # cs \<Rightarrow> if c = 45 \<or> c = 43 then cs else c # cs)"

text \<open>A \<^verbatim>\<open>check\<close> of a key against a name that changes nothing, read as a truth value.\<close>

definition name_matches :: "host \<Rightarrow> patterns \<Rightarrow> importer \<Rightarrow> string \<Rightarrow> jstring \<Rightarrow> bool" where
  "name_matches H P this key name \<longleftrightarrow>
     fst (check H P key
            (defaults\<lparr>text_opt := Some name, removeFromText := False, saveKeys := False\<rparr>) this)
       \<noteq> Inr None"

definition push_skill :: "importer \<Rightarrow> skill \<Rightarrow> importer" where
  "push_skill this s = this\<lparr>parsed_skills := Some (entries (parsed_skills this) @ [s])\<rparr>"

definition push_attack :: "importer \<Rightarrow> weapon \<Rightarrow> importer" where
  "push_attack this w = this\<lparr>parsed_attacks := Some (entries (parsed_attacks this) @ [w])\<rparr>"

text \<open>The branch of a matched dodge.\<close>

definition on_dodge ::
  "host \<Rightarrow> importer \<Rightarrow> jstring \<Rightarrow> rmatch \<Rightarrow> (importer \<times> jstring) outcome"
where
  "on_dodge H this text dodge =
     (case group dodge ''name'' of
        None \<Rightarrow> Thrown TypeError
      | Some n \<Rightarrow>
          Returned
            (push_skill this
               \<lparr>s_name = cleanString n, s_value = Number H (group dodge ''percentage''),
                s_push = False\<rparr>,
             replace_str text (source dodge) [10]))"

text \<open>The branch of a matched weapon; it returns the new carried percentage as well.\<close>

definition on_weapon ::
  "host \<Rightarrow> patterns \<Rightarrow> importer \<Rightarrow> jstring \<Rightarrow> rmatch \<Rightarrow> (importer \<times> jstring \<times> percent) outcome"
where
  "on_weapon H P this text weapon =
     (let name = cleanString (case group weapon ''name'' of None \<Rightarrow> [] | Some n \<Rightarrow> n);
          damage = translateRoll P
                     (cleanString (case group weapon ''damage'' of None \<Rightarrow> [] | Some d \<Rightarrow> d));
          isRanged = (name_matches H P this ''handgun'' name \<or>
                      name_matches H P this ''rifle'' name \<or>
                      name_matches H P this ''smb'' name \<or>
                      name_matches H P this ''machineGun'' name \<or>
                      name_matches H P this ''launched'' name);
          lastPercent = (case group weapon ''percentage'' of
                           Some p \<Rightarrow> PNum (Number H (Some p))
                         | None \<Rightarrow> PTrue)
      in case parsed this ''db'' of
           Some (JStr db) \<Rightarrow>
             (case strip_db (halfdbRegExp P (strip_sign db)) (fulldbRegExp P (strip_sign db))
                     damage False False of
                Returned (damage1, ahdb, addb) \<Rightarrow>
                  Returned
                    (push_attack this (weapon_data name lastPercent isRanged ahdb addb damage1),
                     replace_str text (source weapon) [10], lastPercent)
              | Thrown e \<Rightarrow> Thrown e
              | Diverged \<Rightarrow> Diverged)
         | _ \<Rightarrow> Thrown TypeError)"

text \<open>
  The last two branches: \<^verbatim>\<open>/^(.+)\n/\<close> matches a first line of at least one character that
  \<^verbatim>\<open>\n\<close> ends, and the line is replaced by \<^verbatim>\<open>\n\<close>; \<^verbatim>\<open>/^[^\n]+$/\<close> matches a non-empty text
  with no \<^verbatim>\<open>\n\<close>, and the text becomes empty.
\<close>

definition consume_line :: "jstring \<Rightarrow> jstring" where
  "consume_line text =
     (let line = takeWhile (\<lambda>c. \<not> is_line_terminator c) text
      in if line \<noteq> [] \<and> startsWith (drop (length line) text) [10]
         then replace_str text (line @ [10]) [10]
         else if text \<noteq> [] \<and> 10 \<notin> set text then []
         else text)"

text \<open>
  One turn of the outer loop (lines 173 to 301), after \<^verbatim>\<open>maxLoops--\<close>: it returns the importer, the text, the
  variables \<^verbatim>\<open>weapon\<close> and \<^verbatim>\<open>dodge\<close> and the carried percentage.
\<close>

definition combat_turn ::
  "host \<Rightarrow> patterns \<Rightarrow> importer \<Rightarrow> jstring \<Rightarrow> rmatch option \<Rightarrow> percent \<Rightarrow>
     (importer \<times> jstring \<times> rmatch option \<times> rmatch option \<times> percent) outcome"
where
  "combat_turn H P this text0 weapon lastPercent =
     (let text = trim text0
      in case check H P ''weaponDodge'' (defaults\<lparr>saveKeys := False, text_opt := Some text\<rparr>) this of
           (Inl e, this1) \<Rightarrow> Thrown e
         | (Inr (Some dodge), this1) \<Rightarrow>
             (case on_dodge H this1 text dodge of
                Returned (this2, text2) \<Rightarrow> Returned (this2, text2, weapon, Some dodge, lastPercent)
              | Thrown e \<Rightarrow> Thrown e
              | Diverged \<Rightarrow> Diverged)
         | (Inr None, this1) \<Rightarrow>
             (case check H P ''weapon''
                     (defaults\<lparr>saveKeys := False, text_opt := Some text,
                        requiredGroup := (if lastPercent = PFalse then Some ''percentage'' else None)\<rparr>)
                     this1 of
                (Inl e, this2) \<Rightarrow> Thrown e
              | (Inr (Some weapon1), this2) \<Rightarrow>
                  (case on_weapon H P this2 text weapon1 of
                     Returned (this3, text3, lastPercent3) \<Rightarrow>
                       Returned (this3, text3, Some weapon1, None, lastPercent3)
                   | Thrown e \<Rightarrow> Thrown e
                   | Diverged \<Rightarrow> Diverged)
              | (Inr None, this2) \<Rightarrow>
                  Returned (this2, consume_line text, None, None, lastPercent)))"

text \<open>
  The outer loop \<^verbatim>\<open>do { maxLoops--; ... } while (maxLoops > 0 && (!!weapon || !!dodge || !!text))\<close>.
  It returns the variables as they are when the loop is left.
\<close>

function combat_loop ::
  "host \<Rightarrow> patterns \<Rightarrow> importer \<Rightarrow> jstring \<Rightarrow> rmatch option \<Rightarrow> percent \<Rightarrow> int \<Rightarrow>
     (importer \<times> jstring \<times> rmatch option \<times> rmatch option \<times> int) outcome"
where
  "combat_loop H P this text weapon lastPercent maxLoops =
     (case combat_turn H P this text weapon lastPercent of
        Returned (this1, text1, weapon1, dodge1, lastPercent1) \<Rightarrow>
          (if maxLoops - 1 > 0 \<and> (weapon1 \<noteq> None \<or> dodge1 \<noteq> None \<or> text1 \<noteq> [])
           then combat_loop H P this1 text1 weapon1 lastPercent1 (maxLoops - 1)
           else Returned (this1, text1, weapon1, dodge1, maxLoops - 1))
      | Thrown e \<Rightarrow> Thrown e
      | Diverged \<Rightarrow> Diverged)"
  by pat_completeness auto
termination
  by (relation "measure (\<lambda>(H, P, this, text, weapon, lastPercent, maxLoops). nat maxLoops)") auto

definition unexpected_weapons :: string where
  "unexpected_weapons =
     ''Unexpected weapons text, please raise a bug report with the text you are attempting to import''"

definition processCombat :: "host \<Rightarrow> patterns \<Rightarrow> importer \<Rightarrow> jstring \<Rightarrow> importer outcome" where
  "processCombat H P this text =
     (if length (trim text) = 0 then Returned this
      else
        (case combat_loop H P this text None PFalse 40 of
           Returned (this1, text1, weapon1, dodge1, maxLoops) \<Rightarrow>
             Returned (if maxLoops = 0
                       then this1\<lparr>warnings := warnings this1 @ [unexpected_weapons]\<rparr>
                       else this1)
         | Thrown e \<Rightarrow> Thrown e
         | Diverged \<Rightarrow> Diverged))"

section \<open>The header and the attributes of \<^verbatim>\<open>parseCharacter\<close>\<close>

text \<open>
  The first statement of \<^verbatim>\<open>parseCharacter\<close>: the text is trimmed, the dashes U+2013, U+2014
  and U+2212 become \<^verbatim>\<open>-\<close>, U+2019 becomes \<^verbatim>\<open>'\<close>, and every pair of a code unit in
  DBC0..DBFE and one in DC00..DFFF is removed.
\<close>

fun strip_pairs :: "jstring \<Rightarrow> jstring" where
  "strip_pairs (c # d # cs) =
     (if 56256 \<le> c \<and> c \<le> 56318 \<and> 56320 \<le> d \<and> d \<le> 57343 then strip_pairs cs
      else c # strip_pairs (d # cs))"
| "strip_pairs cs = cs"

definition normalise :: "jstring \<Rightarrow> jstring" where
  "normalise t =
     strip_pairs
       (map (\<lambda>c. if c = 8211 \<or> c = 8212 \<or> c = 8722 then 45 else if c = 8217 then 39 else c)
          (trim t))"

text \<open>
  A \<^verbatim>\<open>check\<close> followed by the rest of the function: an exception of the \<^verbatim>\<open>check\<close> ends
  the function.
\<close>

definition and_then ::
  "(error + rmatch option) \<times> importer \<Rightarrow> (rmatch option \<Rightarrow> importer \<Rightarrow> error + 'a) \<Rightarrow> error + 'a"
where
  "and_then r f = (case r of (Inl e, this) \<Rightarrow> Inl e | (Inr m, this) \<Rightarrow> f m this)"

text \<open>
  The eleven checks of STR, CON, SIZ, INT, POW, DEX, APP, EDU, SAN, HP and MP, each followed by
  \<^verbatim>\<open>min = Math.min(min, check)\<close> when the check gave an index.
\<close>

fun scan_core :: "host \<Rightarrow> patterns \<Rightarrow> string list \<Rightarrow> importer \<Rightarrow> nat \<Rightarrow> error + importer \<times> nat" where
  "scan_core H P [] this m = Inr (this, m)"
| "scan_core H P (key # ks) this m =
     and_then (check H P key (defaults\<lparr>otype := asNumber\<rparr>) this)
       (\<lambda>r this1. scan_core H P ks this1 (case r of None \<Rightarrow> m | Some c \<Rightarrow> min m (index c)))"

definition core_keys :: "string list" where
  "core_keys = [''str'', ''con'', ''siz'', ''int'', ''pow'', ''dex'', ''app'', ''edu'', ''san'',
                ''hp'', ''mp'']"

text \<open>\<^verbatim>\<open>header.substr(0, header.indexOf('.') + 1)\<close> under \<^verbatim>\<open>header.indexOf('.') > -1\<close>.\<close>

definition first_sentence :: "jstring \<Rightarrow> jstring" where
  "first_sentence header =
     (if 46 \<in> set header then takeWhile (\<lambda>c. c \<noteq> 46) header @ [46] else header)"

text \<open>\<^verbatim>\<open>s.replace(/,$/, '')\<close>.\<close>

definition drop_last_comma :: "jstring \<Rightarrow> jstring" where
  "drop_last_comma s = (if s \<noteq> [] \<and> last s = 44 then butlast s else s)"

text \<open>
  The occupation taken from what is left of the header, when the occupation pattern did not
  match and the header is not blank.
\<close>

definition header_occupation :: "rmatch option \<Rightarrow> jstring \<Rightarrow> importer \<Rightarrow> importer" where
  "header_occupation r header this =
     (if r = None \<and> trim header \<noteq> []
      then this\<lparr>parsed := (parsed this)(''occupation'' \<mapsto>
                   JStr (drop_last_comma (trim (collapse_breaks False (first_sentence header))))),
                this_text := replace_str (this_text this) (trim (first_sentence header)) [10]\<rparr>
      else this)"

text \<open>The branch \<^verbatim>\<open>min > 0\<close>: name, age and occupation from the header.\<close>

definition from_header :: "host \<Rightarrow> patterns \<Rightarrow> importer \<Rightarrow> nat \<Rightarrow> error + importer" where
  "from_header H P this m =
     (let header = take m (this_text this)
      in and_then (check H P ''name'' (defaults\<lparr>text_opt := Some header\<rparr>) this)
           (\<lambda>r1 this1.
              let this1a = (if r1 = None
                            then this1\<lparr>parsed := (parsed this1)(''name'' \<mapsto> JStr (unnamedCharacter H))\<rparr>
                            else this1);
                  header1 = (case r1 of None \<Rightarrow> header
                             | Some c \<Rightarrow> replace_str header (source c) [10])
              in and_then (check H P ''age'' (defaults\<lparr>text_opt := Some header1\<rparr>) this1a)
                   (\<lambda>r2 this2.
                      let header2 = (case r2 of None \<Rightarrow> header1
                                     | Some c \<Rightarrow> replace_str header1 (source c) [10])
                      in and_then (check H P ''occupation'' (defaults\<lparr>text_opt := Some header2\<rparr>) this2)
                           (\<lambda>r3 this3. Inr (header_occupation r3 header2 this3)))))"

text \<open>
  \<^verbatim>\<open>/^(?<age>\d+),(?<occupation>.+)$/\<close> on the occupation when there is an occupation and no
  age: digits, a comma, and at least one character up to the end with no line terminator.
  \<^verbatim>\<open>match\<close> is a method of strings only.
\<close>

definition split_age :: "importer \<Rightarrow> error + importer" where
  "split_age this =
     (case (parsed this ''occupation'', parsed this ''age'') of
        (Some (JNum n), None) \<Rightarrow> Inl TypeError
      | (Some (JStr s), None) \<Rightarrow>
          (let age = takeWhile is_digit s;
               rest = drop (length age) s
           in if age \<noteq> [] \<and> startsWith rest [44] \<and> tl rest \<noteq> [] \<and>
                 list_all (\<lambda>c. \<not> is_line_terminator c) (tl rest)
              then Inr (this\<lparr>parsed := (parsed this)(''age'' \<mapsto> JStr age,
                                                      ''occupation'' \<mapsto> JStr (trim (tl rest)))\<rparr>)
              else Inr this)
      | _ \<Rightarrow> Inr this)"

text \<open>\<^verbatim>\<open>parseCharacter\<close> up to the split of age and occupation (lines 379 to 492).\<close>

definition parse_header :: "host \<Rightarrow> patterns \<Rightarrow> importer \<Rightarrow> jstring \<Rightarrow> error + importer" where
  "parse_header H P this0 text =
     (let this = this0\<lparr>this_text := normalise text\<rparr>
      in case scan_core H P core_keys this (length (this_text this)) of
           Inl e \<Rightarrow> Inl e
         | Inr (this1, m) \<Rightarrow>
             (case (if m > 0 then from_header H P this1 m
                    else Inr (this1\<lparr>parsed := (parsed this1)(''name'' \<mapsto> JStr (unnamedCharacter H))\<rparr>)) of
                Inl e \<Rightarrow> Inl e
              | Inr this2 \<Rightarrow> split_age this2))"

text \<open>
  \<^verbatim>\<open>check(noneKey, {removeFromText: false, saveKeys: false, text: v})\<close> as a truth value. An
  undefined \<^verbatim>\<open>v\<close> leaves the option at its default, the buffer.
\<close>

definition matches_none :: "host \<Rightarrow> patterns \<Rightarrow> string \<Rightarrow> jsval option \<Rightarrow> importer \<Rightarrow> bool" where
  "matches_none H P noneKey v this \<longleftrightarrow>
     fst (check H P noneKey
            (defaults\<lparr>removeFromText := False, saveKeys := False,
               text_opt := map_option (to_str H) v\<rparr>) this) \<noteq> Inr None"

text \<open>
  \<^verbatim>\<open>if (!this.check(key) || this.check(noneKey, ...)) this.parsed[key] = '0'\<close>, written in
  the source once for the damage bonus and once for the armor.
\<close>

definition field_or_zero :: "host \<Rightarrow> patterns \<Rightarrow> string \<Rightarrow> string \<Rightarrow> importer \<Rightarrow> error + importer" where
  "field_or_zero H P key noneKey this =
     and_then (check H P key defaults this)
       (\<lambda>r this1.
          Inr (if r = None \<or> matches_none H P noneKey (parsed this1 key) this1
               then this1\<lparr>parsed := (parsed this1)(key \<mapsto> JStr (js ''0''))\<rparr>
               else this1))"

text \<open>
  \<^verbatim>\<open>this.parsed[key] = this.translateRoll(this.parsed[key])\<close>. An undefined value is
  returned as it is (the key stays undefined); \<^verbatim>\<open>replace\<close> is a method of strings only.
\<close>

definition translate_field :: "patterns \<Rightarrow> string \<Rightarrow> importer \<Rightarrow> error + importer" where
  "translate_field P key this =
     (case parsed this key of
        None \<Rightarrow> Inr this
      | Some (JStr s) \<Rightarrow> Inr (this\<lparr>parsed := (parsed this)(key \<mapsto> JStr (translateRoll P s))\<rparr>)
      | Some (JNum n) \<Rightarrow> (if diceShort P = None then Inr this else Inl TypeError))"

text \<open>The attacks per round: \<^verbatim>\<open>'0'\<close> when the pattern matched and its value is the sentinel.\<close>

definition attacks_per_round :: "host \<Rightarrow> patterns \<Rightarrow> importer \<Rightarrow> error + importer" where
  "attacks_per_round H P this =
     and_then (check H P ''attacksPerRound'' defaults this)
       (\<lambda>r this1.
          Inr (if r \<noteq> None \<and>
                  matches_none H P ''attacksPerRoundNone'' (parsed this1 ''attacksPerRound'') this1
               then this1\<lparr>parsed := (parsed this1)(''attacksPerRound'' \<mapsto> JStr (js ''0''))\<rparr>
               else this1))"

text \<open>A step after a step: the exception of one step ends the function.\<close>

definition next_step :: "error + importer \<Rightarrow> (importer \<Rightarrow> error + importer) \<Rightarrow> error + importer" where
  "next_step r f = (case r of Inl e \<Rightarrow> Inl e | Inr this \<Rightarrow> f this)"

definition just_check :: "host \<Rightarrow> patterns \<Rightarrow> string \<Rightarrow> otype \<Rightarrow> importer \<Rightarrow> error + importer" where
  "just_check H P key t this =
     and_then (check H P key (defaults\<lparr>otype := t\<rparr>) this) (\<lambda>r this1. Inr this1)"

text \<open>
  \<^verbatim>\<open>parseCharacter\<close> from the damage bonus to the attacks per round (lines 493 to 535):
  damage bonus, build, armor, movement, luck, sanity loss, attacks per round.
\<close>

definition parse_attributes :: "host \<Rightarrow> patterns \<Rightarrow> importer \<Rightarrow> error + importer" where
  "parse_attributes H P this =
     next_step (next_step (next_step (next_step (next_step (next_step (next_step (next_step
       (field_or_zero H P ''db'' ''dbNone'' this)
       (translate_field P ''db''))
       (just_check H P ''build'' asString))
       (field_or_zero H P ''armor'' ''armorNone''))
       (just_check H P ''mov'' asNumber))
       (just_check H P ''lck'' asNumber))
       (just_check H P ''sanLoss'' asString))
       (translate_field P ''sanLoss''))
       (attacks_per_round H P)"

section \<open>Notions for the statements\<close>

text \<open>
  What a turn of the combat sub-parser keeps of the importer: the attacks and the skills it
  had are still there, in their order, before the new ones; the warnings and the scalar
  properties are the same.
\<close>

definition kept :: "importer \<Rightarrow> importer \<Rightarrow> bool" where
  "kept this this1 \<longleftrightarrow>
     (\<exists>ws. entries (parsed_attacks this1) = entries (parsed_attacks this) @ ws) \<and>
     (\<exists>ss. entries (parsed_skills this1) = entries (parsed_skills this) @ ss) \<and>
     warnings this1 = warnings this \<and> parsed this1 = parsed this"


text \<open>A pattern that does not match a text: \<^verbatim>\<open>check\<close> of its key on that text gives \<^verbatim>\<open>false\<close>.\<close>

definition unmatched :: "patterns \<Rightarrow> string \<Rightarrow> jstring \<Rightarrow> bool" where
  "unmatched P key t \<longleftrightarrow> (case lookup_regExp P key of None \<Rightarrow> True | Some r \<Rightarrow> r t = None)"

text \<open>A pattern that can write a property: some match of it has a named group of that name.\<close>

definition writes :: "patterns \<Rightarrow> string \<Rightarrow> string \<Rightarrow> bool" where
  "writes P key g \<longleftrightarrow>
     (\<exists>r t m gs. lookup_regExp P key = Some r \<and> r t = Some m \<and> groups m = Some gs \<and>
                 g \<in> fst ` set gs)"

text \<open>
  The condition \<^verbatim>\<open>!this.check(key) || this.check(noneKey, ...)\<close> on an importer: the
  pattern of the field is absent from the buffer, or it matches and the value then recorded
  matches the sentinel.
\<close>

definition absent_or_none :: "host \<Rightarrow> patterns \<Rightarrow> string \<Rightarrow> string \<Rightarrow> importer \<Rightarrow> bool" where
  "absent_or_none H P key noneKey this \<longleftrightarrow>
     fst (check H P key defaults this) = Inr None \<or>
     matches_none H P noneKey (parsed (snd (check H P key defaults this)) key)
       (snd (check H P key defaults this))"

text \<open>
  The attribute parser up to the step before the armor, and up to the step before the attacks
  per round.
\<close>

definition before_armor :: "host \<Rightarrow> patterns \<Rightarrow> importer \<Rightarrow> error + importer" where
  "before_armor H P this =
     next_step (next_step
       (field_or_zero H P ''db'' ''dbNone'' this)
       (translate_field P ''db''))
       (just_check H P ''build'' asString)"

definition before_attacks :: "host \<Rightarrow> patterns \<Rightarrow> importer \<Rightarrow> error + importer" where
  "before_attacks H P this =
     next_step (next_step (next_step (next_step (next_step
       (before_armor H P this)
       (field_or_zero H P ''armor'' ''armorNone''))
       (just_check H P ''mov'' asNumber))
       (just_check H P ''lck'' asNumber))
       (just_check H P ''sanLoss'' asString))
       (translate_field P ''sanLoss'')"

text \<open>
  The variables of the outer loop of the combat sub-parser (importer, text, \<^verbatim>\<open>weapon\<close>,
  \<^verbatim>\<open>dodge\<close>, carried percentage) after a number of turns from given ones, and the second
  half of the condition under which the loop goes on.
\<close>

type_synonym combat_vars = "importer \<times> jstring \<times> rmatch option \<times> rmatch option \<times> percent"

fun turns :: "host \<Rightarrow> patterns \<Rightarrow> nat \<Rightarrow> combat_vars \<Rightarrow> combat_vars outcome" where
  "turns H P 0 vars = Returned vars"
| "turns H P (Suc n) (this, text0, weapon, dodge, lastPercent) =
     (case combat_turn H P this text0 weapon lastPercent of
        Returned vars1 \<Rightarrow> turns H P n vars1
      | Thrown e \<Rightarrow> Thrown e
      | Diverged \<Rightarrow> Diverged)"

fun goes_on :: "combat_vars \<Rightarrow> bool" where
  "goes_on (this, text0, weapon, dodge, lastPercent) \<longleftrightarrow>
     weapon \<noteq> None \<or> dodge \<noteq> None \<or> text0 \<noteq> []"


section \<open>A host and a pattern set for the examples\<close>

text \<open>
  The host of the examples: \<open>sample_toNumber\<close> is \<^verbatim>\<open>Number\<close> on the texts that the examples
  give it, which are blank, or decimal digits within white space, or no numeric literal at
  all.
\<close>

definition digits_value :: "jstring \<Rightarrow> nat" where
  "digits_value s = foldl (\<lambda>n c. 10 * n + (c - 48)) 0 s"

definition sample_toNumber :: "jstring \<Rightarrow> jsnum" where
  "sample_toNumber s =
     (if trim s = [] then Fin 0
      else if list_all is_digit (trim s) then Fin (of_nat (digits_value (trim s)))
      else NaN)"

definition sample_host :: host where
  "sample_host = \<lparr>toNumber = sample_toNumber, numToString = (\<lambda>n. js ''NaN''),
                   unnamedCharacter = js ''Unnamed Character''\<rparr>"

definition sample_creature :: fields where
  "sample_creature = [''str'' \<mapsto> JNum (Fin 15), ''edu'' \<mapsto> JNum (Fin 20), ''db'' \<mapsto> JStr (js ''-1d4'')]"


text \<open>
  Modelled from the spec: the pattern set of \<^verbatim>\<open>actor-importer-regexp.js\<close>, which is not
  among the sources. The spec describes its templates: field templates that capture the value
  of a field under the name of the field, sentinels for "none", a dodge template with a name
  and a percentage, and a weapon template with a name and a percentage that may be missing
  (weapons listed as "Weapon A 45%, Weapon B, Weapon C"). The pattern set below has one small
  expression of each kind, for texts in English. Each expression is given by what it matches
  at one position; \<open>search\<close> tries the positions from the left, as \<^verbatim>\<open>exec\<close> does, and
  \<open>anchored\<close> tries the start only. The theorems that hold for every pattern set do not use
  it; their examples do.
\<close>

type_synonym matcher = "jstring \<Rightarrow> (jstring \<times> (string \<times> jstring option) list option) option"

fun search :: "matcher \<Rightarrow> nat \<Rightarrow> jstring \<Rightarrow> rmatch option" where
  "search m i [] =
     (case m [] of None \<Rightarrow> None
      | Some (src, gs) \<Rightarrow> Some \<lparr>source = src, index = i, groups = gs\<rparr>)"
| "search m i (c # cs) =
     (case m (c # cs) of None \<Rightarrow> search m (Suc i) cs
      | Some (src, gs) \<Rightarrow> Some \<lparr>source = src, index = i, groups = gs\<rparr>)"

definition anchored :: "matcher \<Rightarrow> regexp" where
  "anchored m t =
     (case m t of None \<Rightarrow> None
      | Some (src, gs) \<Rightarrow> Some \<lparr>source = src, index = 0, groups = gs\<rparr>)"

text \<open>\<^verbatim>\<open>/LABEL (?<key>\S*)/\<close> for a label and a key.\<close>

definition labelled_at :: "jstring \<Rightarrow> string \<Rightarrow> matcher" where
  "labelled_at label key t =
     (if startsWith t (label @ [32])
      then Some (label @ [32] @ takeWhile (\<lambda>c. \<not> is_space c) (drop (length label + 1) t),
                 Some [(key, Some (takeWhile (\<lambda>c. \<not> is_space c) (drop (length label + 1) t)))])
      else None)"

definition labelled :: "string \<Rightarrow> string \<Rightarrow> regexp" where
  "labelled label key = search (labelled_at (js label) key) 0"

text \<open>An expression that is one literal text, with no named group.\<close>

definition literal :: "string \<Rightarrow> regexp" where
  "literal lit = search (\<lambda>t. if startsWith t (js lit) then Some (js lit, None) else None) 0"

definition is_letter :: "nat \<Rightarrow> bool" where
  "is_letter c \<longleftrightarrow> (65 \<le> c \<and> c \<le> 90) \<or> (97 \<le> c \<and> c \<le> 122)"

text \<open>\<^verbatim>\<open>/^(?<name>[A-Za-z]+),/\<close>.\<close>

definition name_at :: matcher where
  "name_at t =
     (let name = takeWhile is_letter t
      in if name \<noteq> [] \<and> startsWith (drop (length name) t) [44]
         then Some (name @ [44], Some [(''name'', Some name)])
         else None)"

text \<open>\<^verbatim>\<open>/^(?<name>[A-Za-z]+)(?: (?<percentage>\d+)%)?,?/\<close>.\<close>

definition weapon_at :: matcher where
  "weapon_at t =
     (let name = takeWhile is_letter t;
          rest = drop (length name) t;
          digits = takeWhile is_digit (drop 1 rest);
          percentage = (if startsWith rest [32] \<and> digits \<noteq> [] \<and>
                           startsWith (drop (1 + length digits) rest) [37]
                        then Some digits else None);
          rest2 = (case percentage of None \<Rightarrow> rest | Some d \<Rightarrow> drop (length d + 2) rest)
      in if name = [] then None
         else Some (name @ (case percentage of None \<Rightarrow> [] | Some d \<Rightarrow> 32 # d @ [37]) @
                      (if startsWith rest2 [44] then [44] else []),
                    Some [(''name'', Some name), (''percentage'', percentage)]))"

text \<open>\<^verbatim>\<open>/(?<name>Dodge) (?<percentage>\d+)%/\<close>.\<close>

definition dodge_at :: matcher where
  "dodge_at t =
     (let digits = takeWhile is_digit (drop 6 t)
      in if startsWith t (js ''Dodge '') \<and> digits \<noteq> [] \<and> startsWith (drop (6 + length digits) t) [37]
         then Some (js ''Dodge '' @ digits @ [37],
                    Some [(''name'', Some (js ''Dodge'')), (''percentage'', Some digits)])
         else None)"

definition sample_regEx :: "string \<Rightarrow> regexp option" where
  "sample_regEx =
     map_of [(''str'', labelled ''STR'' ''str''), (''con'', labelled ''CON'' ''con''),
             (''siz'', labelled ''SIZ'' ''siz''), (''int'', labelled ''INT'' ''int''),
             (''pow'', labelled ''POW'' ''pow''), (''dex'', labelled ''DEX'' ''dex''),
             (''app'', labelled ''APP'' ''app''), (''edu'', labelled ''EDU'' ''edu''),
             (''san'', labelled ''SAN'' ''san''), (''hp'', labelled ''HP'' ''hp''),
             (''mp'', labelled ''MP'' ''mp''), (''name'', anchored name_at),
             (''db'', labelled ''DB'' ''db''), (''armor'', labelled ''Armor'' ''armor''),
             (''attacksPerRound'', labelled ''Attacks'' ''attacksPerRound''),
             (''weapon'', anchored weapon_at), (''weaponDodge'', search dodge_at 0)]"

definition sample_keys :: "string \<Rightarrow> regexp option" where
  "sample_keys =
     map_of [(''dbNone'', literal ''none''), (''armorNone'', literal ''none''),
             (''attacksPerRoundNone'', literal ''none''),
             (''handgun'', literal ''Pistol''), (''rifle'', literal ''Rifle'')]"

definition sample_patterns :: patterns where
  "sample_patterns =
     \<lparr>regEx = sample_regEx, keys = sample_keys, diceShort = None,
      halfdbRegExp = (\<lambda>db. Some (literal ''+half db'')),
      fulldbRegExp = (\<lambda>db. Some (literal ''+db''))\<rparr>"

text \<open>An importer as its constructor leaves it, with a text in the buffer.\<close>

definition new_importer :: "jstring \<Rightarrow> importer" where
  "new_importer t =
     \<lparr>this_text = t, parsed = Map.empty, parsed_skills = None, parsed_attacks = None,
      parsed_spells = None, warnings = []\<rparr>"

text \<open>
  An importer as the attribute parser leaves it when the text names no damage bonus, with a
  combat text in the buffer.
\<close>

definition sample_importer :: importer where
  "sample_importer =
     (new_importer (js ''Rifle 45%, Pistol, Knife 30%''))\<lparr>parsed := [''db'' \<mapsto> JStr (js ''0'')]\<rparr>"

section \<open>The edition converter: sample values and the condition of the conversion\<close>

lemma times5_same: "times5 H c k k = map_option (\<lambda>v. JNum (num_times (to_num H v) 5)) (c k)"
  by (simp add: times5_def split: option.splits)

lemma times5_other: "k \<noteq> key \<Longrightarrow> times5 H c key k = c k"
  by (simp add: times5_def split: option.splits)

lemma foldl_times5:
  "distinct ks \<Longrightarrow>
   foldl (times5 H) c ks k =
     (if k \<in> set ks then map_option (\<lambda>v. JNum (num_times (to_num H v) 5)) (c k) else c k)"
proof (induction ks arbitrary: c)
  case Nil
  then show ?case by simp
next
  case (Cons a ks)
  show ?case
  proof (cases "k = a")
    case True
    with Cons show ?thesis by (simp add: times5_same)
  next
    case False
    with Cons show ?thesis by (simp add: times5_other)
  qed
qed

lemma convert_edu_other: "k \<noteq> ''edu'' \<Longrightarrow> convert_edu H c k = c k"
  by (simp add: convert_edu_def split: option.splits)

lemma convert_db_other: "k \<noteq> ''db'' \<Longrightarrow> convert_db c k = c k"
  by (simp add: convert_db_def split: option.splits)

lemma convert7E_characteristic:
  "k \<in> set [''str'', ''con'', ''siz'', ''dex'', ''app'', ''int'', ''pow''] \<Longrightarrow>
   convert7E H c k = map_option (\<lambda>v. JNum (num_times (to_num H v) 5)) (c k)"
  unfolding convert7E_def
  by (subst convert_db_other, force, subst convert_edu_other, force, subst foldl_times5, simp, simp)

lemma convert7E_edu:
  "convert7E H c ''edu'' = convert_edu H c ''edu''"
proof -
  have "foldl (times5 H) c [''str'', ''con'', ''siz'', ''dex'', ''app'', ''int'', ''pow''] ''edu''
          = c ''edu''"
    by (subst foldl_times5) simp_all
  then have "convert_edu H
               (foldl (times5 H) c [''str'', ''con'', ''siz'', ''dex'', ''app'', ''int'', ''pow''])
               ''edu'' = convert_edu H c ''edu''"
    unfolding convert_edu_def by (simp split: option.splits)
  then show ?thesis
    unfolding convert7E_def by (subst convert_db_other) simp_all
qed

lemma convert7E_db:
  "convert7E H c ''db'' = convert_db c ''db''"
proof -
  have "convert_edu H
          (foldl (times5 H) c [''str'', ''con'', ''siz'', ''dex'', ''app'', ''int'', ''pow''])
          ''db'' = c ''db''"
    by (subst convert_edu_other, simp, subst foldl_times5) simp_all
  then show ?thesis
    unfolding convert7E_def convert_db_def by (simp split: option.splits)
qed

text \<open>
  Claim C1, as the code has it. Whatever else the record holds: a characteristic of 15 becomes
  75, an education of 20 becomes 92 (the second tier adds 90 and subtracts 18), an education
  of 27 becomes 99, and the damage bonus \<^verbatim>\<open>"-1d4"\<close> becomes the number -1.
\<close>

theorem convert7E_samples:
  "(key \<in> set [''str'', ''con'', ''siz'', ''dex'', ''app'', ''int'', ''pow''] \<longrightarrow>
      creature key = Some (JNum (Fin 15)) \<longrightarrow> convert7E H creature key = Some (JNum (Fin 75))) \<and>
   (creature ''edu'' = Some (JNum (Fin 20)) \<longrightarrow>
      convert7E H creature ''edu'' = Some (JNum (Fin 92))) \<and>
   (creature ''edu'' = Some (JNum (Fin 27)) \<longrightarrow>
      convert7E H creature ''edu'' = Some (JNum (Fin 99))) \<and>
   (creature ''db'' = Some (JStr (js ''-1d4'')) \<longrightarrow>
      convert7E H creature ''db'' = Some (JNum (Fin (- 1))))"
proof (intro conjI impI)
  assume "key \<in> set [''str'', ''con'', ''siz'', ''dex'', ''app'', ''int'', ''pow'']"
    and "creature key = Some (JNum (Fin 15))"
  then show "convert7E H creature key = Some (JNum (Fin 75))"
    by (simp add: convert7E_characteristic to_num_def del: set_simps)
next
  assume "creature ''edu'' = Some (JNum (Fin 20))"
  then show "convert7E H creature ''edu'' = Some (JNum (Fin 92))"
    by (simp add: convert7E_edu convert_edu_def edu_remap_def to_num_def)
next
  assume "creature ''edu'' = Some (JNum (Fin 27))"
  then show "convert7E H creature ''edu'' = Some (JNum (Fin 99))"
    by (simp add: convert7E_edu convert_edu_def to_num_def)
next
  assume "creature ''db'' = Some (JStr (js ''-1d4''))"
  then show "convert7E H creature ''db'' = Some (JNum (Fin (- 1)))"
    by (simp add: convert7E_db convert_db_def)
qed

theorem convert7E_samples_witness:
  "convert7E sample_host sample_creature ''str'' = Some (JNum (Fin 75)) \<and>
   convert7E sample_host sample_creature ''edu'' = Some (JNum (Fin 92)) \<and>
   convert7E sample_host sample_creature ''db'' = Some (JNum (Fin (- 1)))"
  using convert7E_samples [of "''str''" sample_creature sample_host]
  by (simp add: sample_creature_def)

text \<open>The value that the claim gives for an education of 20, which is 100, is not the result.\<close>

theorem convert7E_edu_20_counterexample:
  "convert7E sample_host [''edu'' \<mapsto> JNum (Fin 20)] ''edu'' \<noteq> Some (JNum (Fin 100))"
  by (simp add: convert7E_edu convert_edu_def edu_remap_def to_num_def)





section \<open>The field extractor: shrinking buffer and numeric captures\<close>

lemma length_trim_le: "length (trim s) \<le> length s"
proof -
  have "length (dropWhile is_space (rev (dropWhile is_space s))) \<le> length (rev (dropWhile is_space s))"
    by (rule length_dropWhile_le)
  also have "\<dots> \<le> length s" by (simp add: length_dropWhile_le)
  finally show ?thesis by (simp add: trim_def)
qed

lemma startsWith_length: "startsWith s pat \<Longrightarrow> length pat \<le> length s"
  by (induction s pat rule: startsWith.induct) auto

lemma replace_str_empty_pat: "replace_str s [] rep = rep @ s"
  by (cases s) auto

lemma replace_str_length_le:
  "pat \<noteq> [] \<Longrightarrow> length rep \<le> 1 \<Longrightarrow> length (replace_str s pat rep) \<le> length s"
proof (induction s)
  case Nil
  then show ?case by simp
next
  case (Cons c cs)
  show ?case
  proof (cases "startsWith (c # cs) pat")
    case True
    then have "length pat \<le> length (c # cs)" by (rule startsWith_length)
    moreover from Cons.prems have "1 \<le> length pat" by (cases pat) auto
    ultimately show ?thesis using True Cons.prems by simp
  next
    case False
    with Cons show ?thesis by simp
  qed
qed

lemma trim_newline_Cons: "trim (10 # s) = trim s"
  by (simp add: trim_def is_space_def)

lemma removal_shrinks: "length (trim (replace_str s pat [10])) \<le> length s"
proof (cases "pat = []")
  case True
  then show ?thesis by (simp add: replace_str_empty_pat trim_newline_Cons length_trim_le)
next
  case False
  have "length (trim (replace_str s pat [10])) \<le> length (replace_str s pat [10])"
    by (rule length_trim_le)
  also have "\<dots> \<le> length s" using False by (simp add: replace_str_length_le)
  finally show ?thesis .
qed

text \<open>
  Claim C9. One call of \<^verbatim>\<open>check\<close>, whatever its options and whether or not the pattern
  is known or matches, leaves a buffer that is no longer than the buffer it found.
\<close>

theorem check_never_lengthens:
  "length (this_text (snd (check H P regExKey opts this))) \<le> length (this_text this)"
  unfolding check_def
  by (simp add: Let_def removal_shrinks split: option.splits)

theorem check_never_lengthens_witness:
  "length (this_text (snd (check sample_host sample_patterns ''str'' defaults
                             (new_importer (js ''STR 12 x''))))) \<le> 8"
  using check_never_lengthens [of sample_host sample_patterns "''str''" defaults
      "new_importer (js ''STR 12 x'')"]
  by (simp add: new_importer_def js_def)

lemma save_key_number:
  "save_key H asNumber p (k', v') k =
     (if k = k' \<and> Number H v' \<noteq> NaN then Some (JNum (Number H v')) else p k)"
  by (simp add: save_key_def Let_def)

lemma foldl_save_number:
  "distinct (map fst gs) \<Longrightarrow>
   foldl (save_key H asNumber) p gs k =
     (case map_of gs k of
        None \<Rightarrow> p k
      | Some v \<Rightarrow> if Number H v = NaN then p k else Some (JNum (Number H v)))"
proof (induction gs arbitrary: p k)
  case Nil
  then show ?case by simp
next
  case (Cons g gs)
  obtain k' v' where g: "g = (k', v')" by (cases g)
  from Cons.prems g have notin: "k' \<notin> fst ` set gs" and dist: "distinct (map fst gs)" by auto
  from notin have none: "map_of gs k' = None" by (simp add: map_of_eq_None_iff)
  show ?case
  proof (cases "k = k'")
    case True
    with g none show ?thesis
      by (simp add: Cons.IH [OF dist] save_key_number)
  next
    case False
    with g show ?thesis
      by (simp add: Cons.IH [OF dist] save_key_number split: option.splits)
  qed
qed

text \<open>
  Claim C8. When \<^verbatim>\<open>check\<close> is asked for numbers and its pattern matches with named groups,
  it raises no exception, and of every named capture: one that is no number leaves its key of
  the parsed record as it was, and one that is a number is recorded as that number.
\<close>

theorem check_asNumber_omits_invalid:
  assumes "lookup_regExp P regExKey = Some regExp"
    and "regExp (case text_opt opts of None \<Rightarrow> this_text this | Some t \<Rightarrow> t) = Some chk"
    and "case requiredGroup opts of None \<Rightarrow> True | Some g \<Rightarrow> group chk g \<noteq> None"
    and "groups chk = Some gs" and "distinct (map fst gs)"
    and "saveKeys opts" and "otype opts = asNumber"
  shows "fst (check H P regExKey opts this) = Inr (Some chk) \<and>
         (\<forall>(k, v) \<in> set gs.
            parsed (snd (check H P regExKey opts this)) k =
              (if Number H v = NaN then parsed this k else Some (JNum (Number H v))))"
proof -
  have res: "check H P regExKey opts this =
          (Inr (Some chk),
           (if removeFromText opts
            then this\<lparr>this_text := trim (replace_str (this_text this) (trim (source chk)) [10])\<rparr>
            else this)
           \<lparr>parsed := foldl (save_key H asNumber) (parsed this) gs\<rparr>)"
    using assms unfolding check_def by (simp add: Let_def)
  have "parsed (snd (check H P regExKey opts this)) k =
          (if Number H v = NaN then parsed this k else Some (JNum (Number H v)))"
    if "(k, v) \<in> set gs" for k v
  proof -
    from that assms(5) have "map_of gs k = Some v" by simp
    then show ?thesis
      by (simp add: res foldl_save_number [OF assms(5)])
  qed
  with res show ?thesis by auto
qed

theorem check_asNumber_omits_invalid_witness:
  "fst (check sample_host sample_patterns ''weapon'' (defaults\<lparr>otype := asNumber\<rparr>)
          (new_importer (js ''Rifle 45%''))) =
     Inr (Some \<lparr>source = js ''Rifle 45%'', index = 0,
                groups = Some [(''name'', Some (js ''Rifle'')), (''percentage'', Some (js ''45''))]\<rparr>) \<and>
   parsed (snd (check sample_host sample_patterns ''weapon'' (defaults\<lparr>otype := asNumber\<rparr>)
                  (new_importer (js ''Rifle 45%'')))) ''name'' = None \<and>
   parsed (snd (check sample_host sample_patterns ''weapon'' (defaults\<lparr>otype := asNumber\<rparr>)
                  (new_importer (js ''Rifle 45%'')))) ''percentage'' = Some (JNum (Fin 45))"
proof -
  have w: "weapon_at (js ''Rifle 45%'') =
             Some (js ''Rifle 45%'', Some [(''name'', Some (js ''Rifle'')), (''percentage'', Some (js ''45''))])"
    by (simp add: weapon_at_def js_def is_letter_def is_digit_def Let_def)
  have n1: "Number sample_host (Some (js ''Rifle'')) = NaN"
    by (simp add: Number_def sample_host_def sample_toNumber_def trim_def js_def is_space_def is_digit_def)
  have n2: "Number sample_host (Some (js ''45'')) = Fin 45"
    by (simp add: Number_def sample_host_def sample_toNumber_def trim_def js_def is_space_def
        is_digit_def digits_value_def)
  have l: "lookup_regExp sample_patterns ''weapon'' = Some (anchored weapon_at)"
    by (simp add: lookup_regExp_def sample_patterns_def sample_regEx_def)
  have m: "anchored weapon_at
             (case text_opt (defaults\<lparr>otype := asNumber\<rparr>) of
                None \<Rightarrow> this_text (new_importer (js ''Rifle 45%'')) | Some t \<Rightarrow> t) =
           Some \<lparr>source = js ''Rifle 45%'', index = 0,
                 groups = Some [(''name'', Some (js ''Rifle'')), (''percentage'', Some (js ''45''))]\<rparr>"
    by (simp add: defaults_def new_importer_def anchored_def w)
  show ?thesis
    using check_asNumber_omits_invalid [OF l m, of "[(''name'', Some (js ''Rifle'')), (''percentage'', Some (js ''45''))]" sample_host]
    by (simp add: defaults_def n1 n2 new_importer_def)
qed

section \<open>The expressions of the examples\<close>

lemma search_occurs:
  "search m i t = Some r \<Longrightarrow> \<exists>k. m (drop k t) = Some (source r, groups r)"
proof (induction t arbitrary: i)
  case Nil
  then show ?case by (auto split: option.splits)
next
  case (Cons c cs)
  show ?case
  proof (cases "m (c # cs)")
    case None
    with Cons.prems have "search m (Suc i) cs = Some r" by simp
    from Cons.IH [OF this] obtain k where "m (drop k cs) = Some (source r, groups r)" by blast
    then have "m (drop (Suc k) (c # cs)) = Some (source r, groups r)" by simp
    then show ?thesis by blast
  next
    case (Some a)
    with Cons.prems have "m (drop 0 (c # cs)) = Some (source r, groups r)"
      by (auto split: prod.splits)
    then show ?thesis by blast
  qed
qed

lemma search_groups:
  assumes "search m i t = Some r"
  obtains t' src gs where "m t' = Some (src, gs)" and "groups r = gs"
  using search_occurs [OF assms] by blast

lemma labelled_groups:
  assumes "labelled l k t = Some m"
  shows "\<exists>v. groups m = Some [(k, Some v)]"
proof -
  from assms obtain t' src gs where
    d: "labelled_at (js l) k t' = Some (src, gs)" and g: "groups m = gs"
    unfolding labelled_def by (rule search_groups)
  from d have "\<exists>v. gs = Some [(k, Some v)]"
    by (auto simp: labelled_at_def split: if_splits)
  with g show ?thesis by simp
qed

lemma writes_labelled:
  assumes "lookup_regExp P key = Some (labelled l k)" and "writes P key g"
  shows "g = k"
proof -
  from assms obtain t m gs where "labelled l k t = Some m" "groups m = Some gs" "g \<in> fst ` set gs"
    unfolding writes_def by auto
  with labelled_groups [of l k t m] show ?thesis by auto
qed

lemma writes_unknown: "lookup_regExp P key = None \<Longrightarrow> \<not> writes P key g"
  by (simp add: writes_def)

section \<open>The combat sub-parser: iteration budget and carried percentage\<close>

declare combat_loop.simps [simp del] strip_db.simps [simp del]

lemma check_nosave:
  "\<not> saveKeys opts \<Longrightarrow> \<exists>r t. check H P key opts this = (Inr r, this\<lparr>this_text := t\<rparr>)"
proof -
  assume ns: "\<not> saveKeys opts"
  have triv: "this = this\<lparr>this_text := this_text this\<rparr>" by simp
  show ?thesis
    unfolding check_def using ns
    by (auto simp: Let_def split: option.splits intro: exI [of _ "this_text this"])
qed

lemma kept_text: "kept this (this\<lparr>this_text := t\<rparr>)"
  by (simp add: kept_def)

lemma kept_trans: "kept a b \<Longrightarrow> kept b c \<Longrightarrow> kept a c"
  unfolding kept_def by (elim conjE exE, intro conjI) auto

lemma on_dodge_keeps: "on_dodge H this text dodge = Returned (this2, text2) \<Longrightarrow> kept this this2"
  unfolding on_dodge_def kept_def
  by (auto simp: push_skill_def entries_def split: option.splits)

lemma on_weapon_db:
  assumes "on_weapon H P this text weapon = Returned r"
  obtains db where "parsed this ''db'' = Some (JStr db)"
proof (cases "parsed this ''db''")
  case None
  with assms show ?thesis by (simp add: on_weapon_def Let_def)
next
  case (Some v)
  with assms that show ?thesis by (cases v) (simp_all add: on_weapon_def Let_def)
qed

lemma on_weapon_keeps:
  assumes "on_weapon H P this text weapon = Returned (this2, text2, lp2)"
  shows "kept this this2"
proof -
  from assms obtain db where db: "parsed this ''db'' = Some (JStr db)" by (rule on_weapon_db)
  show ?thesis
  proof (cases "strip_db (halfdbRegExp P (strip_sign db)) (fulldbRegExp P (strip_sign db))
                  (translateRoll P (cleanString (case group weapon ''damage'' of None \<Rightarrow> [] | Some d \<Rightarrow> d)))
                  False False")
    case (Returned r)
    obtain d1 a1 a2 where "r = (d1, a1, a2)" by (cases r)
    with assms db Returned have "\<exists>w. this2 = push_attack this w"
      by (simp add: on_weapon_def Let_def) blast
    then show ?thesis by (auto simp: kept_def push_attack_def entries_def)
  next
    case (Thrown e)
    with assms db show ?thesis by (simp add: on_weapon_def Let_def)
  next
    case Diverged
    with assms db show ?thesis by (simp add: on_weapon_def Let_def)
  qed
qed

lemma combat_turn_keeps:
  assumes "combat_turn H P this text weapon lastPercent = Returned (this1, text1, weapon1, dodge1, lastPercent1)"
  shows "kept this this1"
proof -
  have "\<exists>r t. check H P ''weaponDodge''
                (defaults\<lparr>saveKeys := False, text_opt := Some (trim text)\<rparr>) this =
               (Inr r, this\<lparr>this_text := t\<rparr>)"
    by (rule check_nosave) simp
  then obtain r1 t1 where c1: "check H P ''weaponDodge''
        (defaults\<lparr>saveKeys := False, text_opt := Some (trim text)\<rparr>) this =
      (Inr r1, this\<lparr>this_text := t1\<rparr>)"
    by blast
  have "\<exists>r t. check H P ''weapon''
                (defaults\<lparr>saveKeys := False, text_opt := Some (trim text),
                   requiredGroup := (if lastPercent = PFalse then Some ''percentage'' else None)\<rparr>)
                (this\<lparr>this_text := t1\<rparr>) =
               (Inr r, this\<lparr>this_text := t1\<rparr>\<lparr>this_text := t\<rparr>)"
    by (rule check_nosave) simp
  then obtain r2 t2 where c2: "check H P ''weapon''
        (defaults\<lparr>saveKeys := False, text_opt := Some (trim text),
           requiredGroup := (if lastPercent = PFalse then Some ''percentage'' else None)\<rparr>)
        (this\<lparr>this_text := t1\<rparr>) =
      (Inr r2, this\<lparr>this_text := t2\<rparr>)"
    by auto
  have k1: "kept this (this\<lparr>this_text := t1\<rparr>)" and k2: "kept this (this\<lparr>this_text := t2\<rparr>)"
    by (rule kept_text)+
  show ?thesis
  proof (cases r1)
    case (Some dodge)
    with assms c1 obtain text2 where "on_dodge H (this\<lparr>this_text := t1\<rparr>) (trim text) dodge = Returned (this1, text2)"
      unfolding combat_turn_def Let_def by (simp split: outcome.splits prod.splits)
    then have "kept (this\<lparr>this_text := t1\<rparr>) this1" by (rule on_dodge_keeps)
    with k1 show ?thesis by (rule kept_trans)
  next
    case None
    show ?thesis
    proof (cases r2)
      case (Some weapon2)
      with assms c1 c2 None obtain text2 lp2 where
        "on_weapon H P (this\<lparr>this_text := t2\<rparr>) (trim text) weapon2 = Returned (this1, text2, lp2)"
        unfolding combat_turn_def Let_def by (simp split: outcome.splits prod.splits)
      then have "kept (this\<lparr>this_text := t2\<rparr>) this1" by (rule on_weapon_keeps)
      with k2 show ?thesis by (rule kept_trans)
    next
      case n2: None
      with assms c1 c2 None have "this1 = this\<lparr>this_text := t2\<rparr>"
        unfolding combat_turn_def Let_def by simp
      with k2 show ?thesis by simp
    qed
  qed
qed

lemma combat_loop_budget:
  "1 \<le> n \<Longrightarrow>
   combat_loop H P imp tx weapon lp n = Returned (this1, text1, w1, d1, m) \<Longrightarrow>
   0 \<le> m \<and> m < n \<and> (m = 0 \<or> (w1 = None \<and> d1 = None \<and> text1 = [])) \<and> kept imp this1"
proof (induction "nat n" arbitrary: imp tx weapon lp n rule: less_induct)
  case less
  from less.prems(2) obtain this2 text2 w2 d2 lp2 where
    turn: "combat_turn H P imp tx weapon lp = Returned (this2, text2, w2, d2, lp2)"
    by (subst (asm) combat_loop.simps) (auto split: outcome.splits)
  then have k: "kept imp this2" by (rule combat_turn_keeps)
  show ?case
  proof (cases "n - 1 > 0 \<and> (w2 \<noteq> None \<or> d2 \<noteq> None \<or> text2 \<noteq> [])")
    case True
    with less.prems(2) turn have
      rec: "combat_loop H P this2 text2 w2 lp2 (n - 1) = Returned (this1, text1, w1, d1, m)"
      by (subst (asm) combat_loop.simps) simp
    from True have "nat (n - 1) < nat n" "1 \<le> n - 1" by simp_all
    from less.hyps [OF this rec] k show ?thesis
      by (auto intro: kept_trans)
  next
    case False
    with less.prems(2) turn have
      "this1 = this2 \<and> text1 = text2 \<and> w1 = w2 \<and> d1 = d2 \<and> m = n - 1"
      by (subst (asm) combat_loop.simps) (auto split: if_splits)
    with False less.prems(1) k show ?thesis by auto
  qed
qed

lemma replace_progress_step:
  assumes "\<forall>d m. (h d = Some m \<or> f d = Some m) \<longrightarrow> length (replace_str d (source m) []) < length d"
  shows "\<exists>r. strip_db (Some h) (Some f) d a b = Returned r"
proof (induction "length d" arbitrary: d a b rule: less_induct)
  case less
  show ?case
  proof (cases "h d")
    case (Some m)
    with assms have lt: "length (replace_str d (source m) []) < length d" by blast
    from less [OF lt] obtain r where
      "strip_db (Some h) (Some f) (replace_str d (source m) []) True b = Returned r" by blast
    with Some lt have "strip_db (Some h) (Some f) d a b = Returned r"
      by (subst strip_db.simps) simp
    then show ?thesis by blast
  next
    case None
    show ?thesis
    proof (cases "f d")
      case (Some m)
      with assms have lt: "length (replace_str d (source m) []) < length d" by blast
      from less [OF lt] obtain r where
        "strip_db (Some h) (Some f) (replace_str d (source m) []) a True = Returned r" by blast
      with None Some lt have "strip_db (Some h) (Some f) d a b = Returned r"
        by (subst strip_db.simps) simp
      then show ?thesis by blast
    next
      case n: None
      with None show ?thesis by (subst strip_db.simps) simp
    qed
  qed
qed

lemma check_Some:
  "fst (check H P key opts this) = Inr (Some m) \<Longrightarrow>
   \<exists>r. lookup_regExp P key = Some r \<and>
       r (case text_opt opts of None \<Rightarrow> this_text this | Some t \<Rightarrow> t) = Some m"
  unfolding check_def
  by (auto simp: Let_def split: option.splits if_splits)

lemma combat_turn_returns:
  assumes named: "\<forall>r t m. lookup_regExp P ''weaponDodge'' = Some r \<longrightarrow> r t = Some m \<longrightarrow>
                    group m ''name'' \<noteq> None"
    and db: "parsed this ''db'' = Some (JStr db)"
    and h: "halfdbRegExp P (strip_sign db) = Some h" and f: "fulldbRegExp P (strip_sign db) = Some f"
    and progress: "\<forall>d m. (h d = Some m \<or> f d = Some m) \<longrightarrow>
                      length (replace_str d (source m) []) < length d"
  shows "\<exists>r. combat_turn H P this text weapon lastPercent = Returned r"
proof -
  have "\<exists>r t. check H P ''weaponDodge''
                (defaults\<lparr>saveKeys := False, text_opt := Some (trim text)\<rparr>) this =
               (Inr r, this\<lparr>this_text := t\<rparr>)"
    by (rule check_nosave) simp
  then obtain r1 t1 where c1: "check H P ''weaponDodge''
        (defaults\<lparr>saveKeys := False, text_opt := Some (trim text)\<rparr>) this =
      (Inr r1, this\<lparr>this_text := t1\<rparr>)"
    by blast
  have "\<exists>r t. check H P ''weapon''
                (defaults\<lparr>saveKeys := False, text_opt := Some (trim text),
                   requiredGroup := (if lastPercent = PFalse then Some ''percentage'' else None)\<rparr>)
                (this\<lparr>this_text := t1\<rparr>) =
               (Inr r, this\<lparr>this_text := t1\<rparr>\<lparr>this_text := t\<rparr>)"
    by (rule check_nosave) simp
  then obtain r2 t2 where c2: "check H P ''weapon''
        (defaults\<lparr>saveKeys := False, text_opt := Some (trim text),
           requiredGroup := (if lastPercent = PFalse then Some ''percentage'' else None)\<rparr>)
        (this\<lparr>this_text := t1\<rparr>) =
      (Inr r2, this\<lparr>this_text := t2\<rparr>)"
    by auto
  show ?thesis
  proof (cases r1)
    case (Some dodge)
    with c1 have "fst (check H P ''weaponDodge''
        (defaults\<lparr>saveKeys := False, text_opt := Some (trim text)\<rparr>) this) = Inr (Some dodge)"
      by simp
    from check_Some [OF this] named have "group dodge ''name'' \<noteq> None" by blast
    with Some c1 show ?thesis
      unfolding combat_turn_def Let_def on_dodge_def by auto
  next
    case None
    show ?thesis
    proof (cases r2)
      case (Some weapon2)
      from replace_progress_step [OF progress] obtain r where
        "strip_db (Some h) (Some f)
           (translateRoll P (cleanString (case group weapon2 ''damage'' of None \<Rightarrow> [] | Some d \<Rightarrow> d)))
           False False = Returned r" by blast
      moreover obtain d1 a1 a2 where "r = (d1, a1, a2)" by (cases r)
      ultimately have "\<exists>r. on_weapon H P (this\<lparr>this_text := t2\<rparr>) (trim text) weapon2 = Returned r"
        using db h f by (simp add: on_weapon_def Let_def)
      with None Some c1 c2 show ?thesis
        unfolding combat_turn_def Let_def by (auto split: prod.splits)
    next
      case n2: None
      with None c1 c2 show ?thesis
        unfolding combat_turn_def Let_def by simp
    qed
  qed
qed

lemma combat_loop_returns:
  assumes named: "\<forall>r t m. lookup_regExp P ''weaponDodge'' = Some r \<longrightarrow> r t = Some m \<longrightarrow>
                    group m ''name'' \<noteq> None"
    and h: "halfdbRegExp P (strip_sign db) = Some h" and f: "fulldbRegExp P (strip_sign db) = Some f"
    and progress: "\<forall>d m. (h d = Some m \<or> f d = Some m) \<longrightarrow>
                      length (replace_str d (source m) []) < length d"
  shows "parsed imp ''db'' = Some (JStr db) \<Longrightarrow>
         \<exists>r. combat_loop H P imp tx weapon lp n = Returned r"
proof (induction "nat n" arbitrary: imp tx weapon lp n rule: less_induct)
  case less
  from combat_turn_returns [OF named less.prems h f progress]
  obtain this2 text2 w2 d2 lp2 where
    turn: "combat_turn H P imp tx weapon lp = Returned (this2, text2, w2, d2, lp2)"
    by (metis prod_cases5)
  then have "kept imp this2" by (rule combat_turn_keeps)
  with less.prems have db2: "parsed this2 ''db'' = Some (JStr db)" by (simp add: kept_def)
  show ?case
  proof (cases "n - 1 > 0 \<and> (w2 \<noteq> None \<or> d2 \<noteq> None \<or> text2 \<noteq> [])")
    case True
    then have "nat (n - 1) < nat n" by simp
    from less.hyps [OF this db2] True turn show ?thesis
      by (subst combat_loop.simps) simp
  next
    case False
    with turn show ?thesis by (subst combat_loop.simps) auto
  qed
qed

lemma replace_shortens:
  "pat \<noteq> [] \<Longrightarrow> startsWith (drop k d) pat \<Longrightarrow> length (replace_str d pat []) < length d"
proof (induction d arbitrary: k)
  case Nil
  then show ?case by (cases pat) auto
next
  case (Cons c cs)
  show ?case
  proof (cases "startsWith (c # cs) pat")
    case True
    then have "length pat \<le> length (c # cs)" by (rule startsWith_length)
    with True Cons.prems(1) show ?thesis by (cases pat) auto
  next
    case False
    with Cons.prems(2) obtain k' where "k = Suc k'" by (cases k) auto
    with Cons.prems(2) have "startsWith (drop k' cs) pat" by simp
    from Cons.IH [OF Cons.prems(1) this] False show ?thesis by simp
  qed
qed

lemma literal_progress:
  assumes "lit \<noteq> []" and "literal lit d = Some m"
  shows "length (replace_str d (source m) []) < length d"
proof -
  from search_occurs [OF assms(2) [unfolded literal_def]] obtain k where
    "(if startsWith (drop k d) (js lit) then Some (js lit, None) else None) = Some (source m, groups m)"
    by blast
  then have "source m = js lit" "startsWith (drop k d) (js lit)"
    by (auto split: if_splits)
  moreover from assms(1) have "js lit \<noteq> []" by (simp add: js_def)
  ultimately show ?thesis by (simp add: replace_shortens)
qed

lemma dodge_named:
  "search dodge_at 0 t = Some m \<Longrightarrow> group m ''name'' \<noteq> None"
proof -
  assume "search dodge_at 0 t = Some m"
  then obtain t' src gs where
    d: "dodge_at t' = Some (src, gs)" and g: "groups m = gs" by (rule search_groups)
  from d have "\<exists>d. gs = Some [(''name'', Some (js ''Dodge'')), (''percentage'', Some d)]"
    by (auto simp: dodge_at_def Let_def split: if_splits)
  with g have "\<exists>d. groups m = Some [(''name'', Some (js ''Dodge'')), (''percentage'', Some d)]"
    by simp
  then show ?thesis
    by (auto simp: group_def)
qed

lemma combat_loop_turns:
  "1 \<le> m \<Longrightarrow>
   combat_loop H P imp tx weapon lp m = Returned (this1, text1, w1, d1, m') \<Longrightarrow>
   \<exists>n lp1. 1 \<le> n \<and> int n \<le> m \<and> m' = m - int n \<and>
     turns H P n (imp, tx, weapon, d0, lp) = Returned (this1, text1, w1, d1, lp1) \<and>
     (\<forall>k. 1 \<le> k \<and> k < n \<longrightarrow>
        (\<exists>vars. turns H P k (imp, tx, weapon, d0, lp) = Returned vars \<and> goes_on vars)) \<and>
     (m' = 0 \<or> \<not> goes_on (this1, text1, w1, d1, lp1))"
proof (induction "nat m" arbitrary: imp tx weapon lp m d0 rule: less_induct)
  case less
  from less.prems(2) obtain this2 text2 w2 d2 lp2 where
    turn: "combat_turn H P imp tx weapon lp = Returned (this2, text2, w2, d2, lp2)"
    by (subst (asm) combat_loop.simps) (auto split: outcome.splits)
  show ?case
  proof (cases "m - 1 > 0 \<and> goes_on (this2, text2, w2, d2, lp2)")
    case True
    with less.prems(2) turn have
      rec: "combat_loop H P this2 text2 w2 lp2 (m - 1) = Returned (this1, text1, w1, d1, m')"
      by (subst (asm) combat_loop.simps) simp
    from True have "nat (m - 1) < nat m" "1 \<le> m - 1" by simp_all
    from less.hyps [OF this rec, of d2] obtain n lp1 where
      n: "1 \<le> n" "int n \<le> m - 1" "m' = m - 1 - int n"
      and t: "turns H P n (this2, text2, w2, d2, lp2) = Returned (this1, text1, w1, d1, lp1)"
      and before: "\<forall>k. 1 \<le> k \<and> k < n \<longrightarrow>
        (\<exists>vars. turns H P k (this2, text2, w2, d2, lp2) = Returned vars \<and> goes_on vars)"
      and last: "m' = 0 \<or> \<not> goes_on (this1, text1, w1, d1, lp1)"
      by blast
    have "turns H P (Suc n) (imp, tx, weapon, d0, lp) = Returned (this1, text1, w1, d1, lp1)"
      using turn t by simp
    moreover have "\<exists>vars. turns H P k (imp, tx, weapon, d0, lp) = Returned vars \<and> goes_on vars"
      if "1 \<le> k \<and> k < Suc n" for k
    proof (cases k)
      case 0
      with that show ?thesis by simp
    next
      case (Suc j)
      show ?thesis
      proof (cases j)
        case 0
        with Suc turn True show ?thesis by simp
      next
        case (Suc i)
        with \<open>k = Suc j\<close> that have "1 \<le> j \<and> j < n" by simp
        with before obtain vars where
          "turns H P j (this2, text2, w2, d2, lp2) = Returned vars" "goes_on vars" by blast
        with \<open>k = Suc j\<close> turn show ?thesis by simp
      qed
    qed
    ultimately show ?thesis
      using n last by (intro exI [of _ "Suc n"] exI [of _ lp1]) auto
  next
    case False
    with less.prems(2) turn have
      eq: "this1 = this2 \<and> text1 = text2 \<and> w1 = w2 \<and> d1 = d2 \<and> m' = m - 1"
      by (subst (asm) combat_loop.simps) (auto split: if_splits)
    with turn have "turns H P 1 (imp, tx, weapon, d0, lp) = Returned (this1, text1, w1, d1, lp2)"
      by simp
    moreover from False eq less.prems(1) have "m' = 0 \<or> \<not> goes_on (this1, text1, w1, d1, lp2)"
      by auto
    ultimately show ?thesis
      using eq less.prems(1) by (intro exI [of _ 1] exI [of _ lp2]) auto
  qed
qed

lemma on_weapon_entry:
  assumes "on_weapon H P imp tx weapon = Returned (imp2, tx2, lastPercent)"
  shows "lastPercent = (case group weapon ''percentage'' of None \<Rightarrow> PTrue
                        | Some p \<Rightarrow> PNum (Number H (Some p))) \<and>
         tx2 = replace_str tx (source weapon) [10] \<and>
         parsed_skills imp2 = parsed_skills imp \<and>
         (\<exists>w. parsed_attacks imp2 = Some (entries (parsed_attacks imp) @ [w]) \<and>
              skill_id w = lastPercent \<and>
              w_name w = cleanString (case group weapon ''name'' of None \<Rightarrow> [] | Some n \<Rightarrow> n))"
proof -
  from assms obtain db where db: "parsed imp ''db'' = Some (JStr db)" by (rule on_weapon_db)
  show ?thesis
  proof (cases "strip_db (halfdbRegExp P (strip_sign db)) (fulldbRegExp P (strip_sign db))
                  (translateRoll P (cleanString (case group weapon ''damage'' of None \<Rightarrow> [] | Some d \<Rightarrow> d)))
                  False False")
    case (Returned r)
    obtain d1 a1 a2 where "r = (d1, a1, a2)" by (cases r)
    with assms db Returned show ?thesis
      by (auto simp: on_weapon_def Let_def push_attack_def weapon_data_def split: option.splits)
  next
    case (Thrown e)
    with assms db show ?thesis by (simp add: on_weapon_def Let_def)
  next
    case Diverged
    with assms db show ?thesis by (simp add: on_weapon_def Let_def)
  qed
qed

lemma combat_turn_entries:
  assumes "combat_turn H P imp tx weapon lp = Returned (imp1, tx1, w1, d1, lp1)"
  shows "(case d1 of
            Some d \<Rightarrow>
              (\<exists>n. group d ''name'' = Some n \<and>
                   parsed_skills imp1 =
                     Some (entries (parsed_skills imp) @
                           [\<lparr>s_name = cleanString n, s_value = Number H (group d ''percentage''),
                             s_push = False\<rparr>])) \<and>
              parsed_attacks imp1 = parsed_attacks imp \<and>
              tx1 = replace_str (trim tx) (source d) [10] \<and> w1 = weapon \<and> lp1 = lp
          | None \<Rightarrow>
              parsed_skills imp1 = parsed_skills imp \<and>
              (case w1 of
                 Some w \<Rightarrow>
                   (\<exists>e. parsed_attacks imp1 = Some (entries (parsed_attacks imp) @ [e]) \<and>
                        skill_id e = lp1 \<and>
                        w_name e = cleanString (case group w ''name'' of None \<Rightarrow> [] | Some n \<Rightarrow> n)) \<and>
                   lp1 = (case group w ''percentage'' of None \<Rightarrow> PTrue
                          | Some p \<Rightarrow> PNum (Number H (Some p))) \<and>
                   tx1 = replace_str (trim tx) (source w) [10]
               | None \<Rightarrow>
                   parsed_attacks imp1 = parsed_attacks imp \<and> tx1 = consume_line (trim tx) \<and>
                   lp1 = lp))"
proof -
  have "\<exists>r t. check H P ''weaponDodge''
                (defaults\<lparr>saveKeys := False, text_opt := Some (trim tx)\<rparr>) imp =
               (Inr r, imp\<lparr>this_text := t\<rparr>)"
    by (rule check_nosave) simp
  then obtain r1 t1 where c1: "check H P ''weaponDodge''
        (defaults\<lparr>saveKeys := False, text_opt := Some (trim tx)\<rparr>) imp =
      (Inr r1, imp\<lparr>this_text := t1\<rparr>)"
    by blast
  have "\<exists>r t. check H P ''weapon''
                (defaults\<lparr>saveKeys := False, text_opt := Some (trim tx),
                   requiredGroup := (if lp = PFalse then Some ''percentage'' else None)\<rparr>)
                (imp\<lparr>this_text := t1\<rparr>) =
               (Inr r, imp\<lparr>this_text := t1\<rparr>\<lparr>this_text := t\<rparr>)"
    by (rule check_nosave) simp
  then obtain r2 t2 where c2: "check H P ''weapon''
        (defaults\<lparr>saveKeys := False, text_opt := Some (trim tx),
           requiredGroup := (if lp = PFalse then Some ''percentage'' else None)\<rparr>)
        (imp\<lparr>this_text := t1\<rparr>) =
      (Inr r2, imp\<lparr>this_text := t2\<rparr>)"
    by auto
  show ?thesis
  proof (cases r1)
    case (Some dodge)
    with assms c1 have od: "on_dodge H (imp\<lparr>this_text := t1\<rparr>) (trim tx) dodge = Returned (imp1, tx1)"
      and rest: "w1 = weapon" "d1 = Some dodge" "lp1 = lp"
      unfolding combat_turn_def Let_def by (simp_all split: outcome.splits prod.splits)
    from od obtain n where "group dodge ''name'' = Some n"
      and "imp1 = push_skill (imp\<lparr>this_text := t1\<rparr>)
                    \<lparr>s_name = cleanString n, s_value = Number H (group dodge ''percentage''),
                     s_push = False\<rparr>"
      and "tx1 = replace_str (trim tx) (source dodge) [10]"
      unfolding on_dodge_def by (auto split: option.splits)
    with rest show ?thesis by (simp add: push_skill_def)
  next
    case None
    show ?thesis
    proof (cases r2)
      case (Some weapon2)
      with assms c1 c2 None have
        ow: "on_weapon H P (imp\<lparr>this_text := t2\<rparr>) (trim tx) weapon2 = Returned (imp1, tx1, lp1)"
        and rest: "w1 = Some weapon2" "d1 = None"
        unfolding combat_turn_def Let_def by (simp_all split: outcome.splits prod.splits)
      from on_weapon_entry [OF ow] rest show ?thesis by auto
    next
      case n2: None
      with assms c1 c2 None show ?thesis
        unfolding combat_turn_def Let_def by auto
    qed
  qed
qed

text \<open>
  Claim C7. A call of \<^verbatim>\<open>processCombat\<close> on a blank text returns the importer as it is. A call
  on any other text which returns has run \<open>n\<close> turns of its loop from the variables it starts
  with, with \<open>n\<close> between 1 and 40: the counter is then \<open>40 - n\<close>, after every turn before the
  last a weapon or a dodge was matched or text was left, and after the last either \<open>n\<close> is 40
  or no weapon and no dodge was matched and no text is left. The call returns the importer of
  these \<open>n\<close> turns, so with every weapon and skill entry they have added after the entries it
  had; when \<open>n\<close> is 40 the counter is 0 and the warning is added to it, and otherwise no warning
  is. A turn that matches a dodge adds one skill, of the name and the percentage of the match; a
  turn that matches a weapon adds one weapon, of the name of the match; any other turn adds
  nothing and drops a line of the text. The call does return whenever every dodge match has a
  name, the damage bonus is a string, and each removal of a damage-bonus term shortens the
  damage text, which are the only ways for a turn to throw or to go on for ever.
\<close>

theorem processCombat_budget:
  "(trim text = [] \<longrightarrow> processCombat H P this text = Returned this) \<and>
   (processCombat H P this text = Returned this' \<longrightarrow> trim text \<noteq> [] \<longrightarrow>
      (\<exists>n this1 text1 weapon1 dodge1 lastPercent1.
         1 \<le> n \<and> n \<le> 40 \<and>
         turns H P n (this, text, None, None, PFalse) =
           Returned (this1, text1, weapon1, dodge1, lastPercent1) \<and>
         (\<forall>k. 1 \<le> k \<and> k < n \<longrightarrow>
            (\<exists>vars. turns H P k (this, text, None, None, PFalse) = Returned vars \<and> goes_on vars)) \<and>
         (n = 40 \<or> \<not> goes_on (this1, text1, weapon1, dodge1, lastPercent1)) \<and>
         combat_loop H P this text None PFalse 40 =
           Returned (this1, text1, weapon1, dodge1, 40 - int n) \<and>
         this' = (if n = 40 then this1\<lparr>warnings := warnings this1 @ [unexpected_weapons]\<rparr>
                  else this1) \<and>
         kept this this1)) \<and>
   (combat_turn H P imp tx weapon lp = Returned (imp1, tx1, w1, d1, lp1) \<longrightarrow>
      (case d1 of
         Some d \<Rightarrow>
           (\<exists>n. group d ''name'' = Some n \<and>
                parsed_skills imp1 =
                  Some (entries (parsed_skills imp) @
                        [\<lparr>s_name = cleanString n, s_value = Number H (group d ''percentage''),
                          s_push = False\<rparr>])) \<and>
           parsed_attacks imp1 = parsed_attacks imp \<and>
           tx1 = replace_str (trim tx) (source d) [10] \<and> w1 = weapon \<and> lp1 = lp
       | None \<Rightarrow>
           parsed_skills imp1 = parsed_skills imp \<and>
           (case w1 of
              Some w \<Rightarrow>
                (\<exists>e. parsed_attacks imp1 = Some (entries (parsed_attacks imp) @ [e]) \<and>
                     skill_id e = lp1 \<and>
                     w_name e = cleanString (case group w ''name'' of None \<Rightarrow> [] | Some n \<Rightarrow> n)) \<and>
                lp1 = (case group w ''percentage'' of None \<Rightarrow> PTrue
                       | Some p \<Rightarrow> PNum (Number H (Some p))) \<and>
                tx1 = replace_str (trim tx) (source w) [10]
            | None \<Rightarrow>
                parsed_attacks imp1 = parsed_attacks imp \<and> tx1 = consume_line (trim tx) \<and>
                lp1 = lp))) \<and>
   ((\<forall>r t m. lookup_regExp P ''weaponDodge'' = Some r \<longrightarrow> r t = Some m \<longrightarrow>
        group m ''name'' \<noteq> None) \<longrightarrow>
    parsed this ''db'' = Some (JStr db) \<longrightarrow>
    halfdbRegExp P (strip_sign db) = Some h \<longrightarrow> fulldbRegExp P (strip_sign db) = Some f \<longrightarrow>
    (\<forall>d m. (h d = Some m \<or> f d = Some m) \<longrightarrow> length (replace_str d (source m) []) < length d) \<longrightarrow>
    (\<exists>this'. processCombat H P this text = Returned this'))"
proof (intro conjI impI)
  assume "trim text = []"
  then show "processCombat H P this text = Returned this"
    by (simp add: processCombat_def)
next
  assume r: "processCombat H P this text = Returned this'" and t: "trim text \<noteq> []"
  then obtain this1 text1 weapon1 dodge1 maxLoops where
    loop: "combat_loop H P this text None PFalse 40 = Returned (this1, text1, weapon1, dodge1, maxLoops)"
    unfolding processCombat_def by (auto split: outcome.splits)
  with r t have res: "this' = (if maxLoops = 0 then this1\<lparr>warnings := warnings this1 @ [unexpected_weapons]\<rparr>
                  else this1)"
    unfolding processCombat_def by auto
  from combat_loop_budget [OF _ loop] have k: "kept this this1" by simp
  have "(1::int) \<le> 40" by simp
  from combat_loop_turns [OF this loop, of None] obtain n lastPercent1 where
    n: "1 \<le> n" "int n \<le> 40" "maxLoops = 40 - int n"
    and run: "turns H P n (this, text, None, None, PFalse) =
                Returned (this1, text1, weapon1, dodge1, lastPercent1)"
    and before: "\<forall>k. 1 \<le> k \<and> k < n \<longrightarrow>
            (\<exists>vars. turns H P k (this, text, None, None, PFalse) = Returned vars \<and> goes_on vars)"
    and last: "maxLoops = 0 \<or> \<not> goes_on (this1, text1, weapon1, dodge1, lastPercent1)"
    by (elim exE conjE)
  from n have z: "maxLoops = 0 \<longleftrightarrow> n = 40" by auto
  from n have "n \<le> 40" by simp
  moreover from last z have "n = 40 \<or> \<not> goes_on (this1, text1, weapon1, dodge1, lastPercent1)"
    by simp
  moreover from loop n have "combat_loop H P this text None PFalse 40 =
           Returned (this1, text1, weapon1, dodge1, 40 - int n)" by simp
  moreover from res z have "this' = (if n = 40 then this1\<lparr>warnings := warnings this1 @ [unexpected_weapons]\<rparr>
                  else this1)" by simp
  ultimately show "\<exists>n this1 text1 weapon1 dodge1 lastPercent1.
         1 \<le> n \<and> n \<le> 40 \<and>
         turns H P n (this, text, None, None, PFalse) =
           Returned (this1, text1, weapon1, dodge1, lastPercent1) \<and>
         (\<forall>k. 1 \<le> k \<and> k < n \<longrightarrow>
            (\<exists>vars. turns H P k (this, text, None, None, PFalse) = Returned vars \<and> goes_on vars)) \<and>
         (n = 40 \<or> \<not> goes_on (this1, text1, weapon1, dodge1, lastPercent1)) \<and>
         combat_loop H P this text None PFalse 40 =
           Returned (this1, text1, weapon1, dodge1, 40 - int n) \<and>
         this' = (if n = 40 then this1\<lparr>warnings := warnings this1 @ [unexpected_weapons]\<rparr>
                  else this1) \<and>
         kept this this1"
    using n(1) run before k
    by (intro exI [of _ n] exI [of _ this1] exI [of _ text1] exI [of _ weapon1]
          exI [of _ dodge1] exI [of _ lastPercent1] conjI)
next
  assume "combat_turn H P imp tx weapon lp = Returned (imp1, tx1, w1, d1, lp1)"
  then show "(case d1 of
         Some d \<Rightarrow>
           (\<exists>n. group d ''name'' = Some n \<and>
                parsed_skills imp1 =
                  Some (entries (parsed_skills imp) @
                        [\<lparr>s_name = cleanString n, s_value = Number H (group d ''percentage''),
                          s_push = False\<rparr>])) \<and>
           parsed_attacks imp1 = parsed_attacks imp \<and>
           tx1 = replace_str (trim tx) (source d) [10] \<and> w1 = weapon \<and> lp1 = lp
       | None \<Rightarrow>
           parsed_skills imp1 = parsed_skills imp \<and>
           (case w1 of
              Some w \<Rightarrow>
                (\<exists>e. parsed_attacks imp1 = Some (entries (parsed_attacks imp) @ [e]) \<and>
                     skill_id e = lp1 \<and>
                     w_name e = cleanString (case group w ''name'' of None \<Rightarrow> [] | Some n \<Rightarrow> n)) \<and>
                lp1 = (case group w ''percentage'' of None \<Rightarrow> PTrue
                       | Some p \<Rightarrow> PNum (Number H (Some p))) \<and>
                tx1 = replace_str (trim tx) (source w) [10]
            | None \<Rightarrow>
                parsed_attacks imp1 = parsed_attacks imp \<and> tx1 = consume_line (trim tx) \<and>
                lp1 = lp))"
    by (rule combat_turn_entries)
next
  assume named: "\<forall>r t m. lookup_regExp P ''weaponDodge'' = Some r \<longrightarrow> r t = Some m \<longrightarrow>
        group m ''name'' \<noteq> None"
    and db: "parsed this ''db'' = Some (JStr db)"
    and h: "halfdbRegExp P (strip_sign db) = Some h" and f: "fulldbRegExp P (strip_sign db) = Some f"
    and progress: "\<forall>d m. (h d = Some m \<or> f d = Some m) \<longrightarrow>
                     length (replace_str d (source m) []) < length d"
  from combat_loop_returns [OF named h f progress db]
  obtain r where "combat_loop H P this text None PFalse 40 = Returned r" by blast
  then show "\<exists>this'. processCombat H P this text = Returned this'"
    unfolding processCombat_def by (cases r) auto
qed

lemmas ev = check_def lookup_regExp_def sample_patterns_def sample_regEx_def sample_keys_def
  anchored_def weapon_at_def literal_def dodge_at_def js_def trim_def is_space_def is_letter_def
  is_digit_def defaults_def group_def cleanString_def Let_def on_weapon_def on_dodge_def
  combat_turn_def translateRoll_def name_matches_def strip_sign_def is_newline_def is_tail_def
  drop_dot_def Number_def sample_host_def sample_toNumber_def digits_value_def weapon_data_def
  push_attack_def push_skill_def entries_def consume_line_def is_line_terminator_def
  new_importer_def sample_importer_def combat_loop.simps strip_db.simps

lemma sample_exhausted:
  "processCombat sample_host sample_patterns sample_importer [49, 13, 50, 10, 51] =
     Returned (sample_importer\<lparr>warnings := [unexpected_weapons]\<rparr>)"
  by (simp add: processCombat_def ev)

lemma sample_first_turn:
  "(case combat_turn sample_host sample_patterns sample_importer
           (js ''Rifle 45%, Pistol, Knife 30%'') None PFalse of
      Returned (imp1, tx1, w1, d1, lp1) \<Rightarrow>
        d1 = None \<and>
        (case w1 of None \<Rightarrow> False
         | Some w \<Rightarrow> group w ''percentage'' = Some (js ''45'') \<and>
                    group w ''name'' = Some (js ''Rifle''))
    | Thrown e \<Rightarrow> False
    | Diverged \<Rightarrow> False)"
  by (simp add: ev)

lemma sample_45: "Number sample_host (Some (js ''45'')) = Fin 45"
  by (simp add: ev)

theorem processCombat_budget_witness:
  "processCombat sample_host sample_patterns sample_importer (js '' '') = Returned sample_importer \<and>
   (\<exists>this'. processCombat sample_host sample_patterns sample_importer [49, 13, 50, 10, 51] =
             Returned this') \<and>
   (\<exists>this1 text1 weapon1 dodge1 lastPercent1.
      turns sample_host sample_patterns 40 (sample_importer, [49, 13, 50, 10, 51], None, None, PFalse) =
        Returned (this1, text1, weapon1, dodge1, lastPercent1) \<and>
      combat_loop sample_host sample_patterns sample_importer [49, 13, 50, 10, 51] None PFalse 40 =
        Returned (this1, text1, weapon1, dodge1, 0) \<and>
      sample_importer\<lparr>warnings := [unexpected_weapons]\<rparr> =
        this1\<lparr>warnings := warnings this1 @ [unexpected_weapons]\<rparr> \<and>
      kept sample_importer this1) \<and>
   (\<exists>imp1 tx1 w lp1 e.
      combat_turn sample_host sample_patterns sample_importer
        (js ''Rifle 45%, Pistol, Knife 30%'') None PFalse = Returned (imp1, tx1, Some w, None, lp1) \<and>
      parsed_attacks imp1 = Some (entries (parsed_attacks sample_importer) @ [e]) \<and>
      skill_id e = PNum (Fin 45) \<and> lp1 = PNum (Fin 45))"
proof (intro conjI)
  have blank: "trim (js '' '') = []"
    by (simp add: trim_def is_space_def js_def)
  from processCombat_budget [of "js '' ''" sample_host sample_patterns sample_importer,
      THEN conjunct1] blank
  show "processCombat sample_host sample_patterns sample_importer (js '' '') = Returned sample_importer"
    by simp
next
  have named: "\<forall>r t m. lookup_regExp sample_patterns ''weaponDodge'' = Some r \<longrightarrow> r t = Some m \<longrightarrow>
        group m ''name'' \<noteq> None"
    by (auto simp: lookup_regExp_def sample_patterns_def sample_regEx_def dest: dodge_named)
  have db: "parsed sample_importer ''db'' = Some (JStr (js ''0''))"
    by (simp add: sample_importer_def)
  have h: "halfdbRegExp sample_patterns (strip_sign (js ''0'')) = Some (literal ''+half db'')"
    and f: "fulldbRegExp sample_patterns (strip_sign (js ''0'')) = Some (literal ''+db'')"
    by (simp_all add: sample_patterns_def)
  have progress: "\<forall>d m. (literal ''+half db'' d = Some m \<or> literal ''+db'' d = Some m) \<longrightarrow>
                     length (replace_str d (source m) []) < length d"
    by (auto intro: literal_progress)
  note inst = processCombat_budget [of "[49, 13, 50, 10, 51]" sample_host sample_patterns
      sample_importer _ _ _ _ _ _ _ _ _ _ "js ''0''" "literal ''+half db''" "literal ''+db''",
      THEN conjunct2, THEN conjunct2, THEN conjunct2]
  from inst named db h f progress
  show "\<exists>this'. processCombat sample_host sample_patterns sample_importer [49, 13, 50, 10, 51] =
             Returned this'"
    by (elim impE) assumption+
next
  have nonblank: "trim [49, 13, 50, 10, 51] \<noteq> []"
    by (simp add: trim_def is_space_def)
  note inst = processCombat_budget [of "[49, 13, 50, 10, 51]" sample_host sample_patterns
      sample_importer "sample_importer\<lparr>warnings := [unexpected_weapons]\<rparr>",
      THEN conjunct2, THEN conjunct1, rule_format, OF sample_exhausted nonblank]
  from inst obtain n this1 text1 weapon1 dodge1 lastPercent1 where
    n: "1 \<le> n" "n \<le> 40"
    and run: "turns sample_host sample_patterns n
                (sample_importer, [49, 13, 50, 10, 51], None, None, PFalse) =
              Returned (this1, text1, weapon1, dodge1, lastPercent1)"
    and l: "combat_loop sample_host sample_patterns sample_importer [49, 13, 50, 10, 51] None PFalse 40 =
         Returned (this1, text1, weapon1, dodge1, 40 - int n)"
    and e: "sample_importer\<lparr>warnings := [unexpected_weapons]\<rparr> =
         (if n = 40 then this1\<lparr>warnings := warnings this1 @ [unexpected_weapons]\<rparr> else this1)"
    and k: "kept sample_importer this1"
    by (elim exE conjE)
  have n40: "n = 40"
  proof (rule ccontr)
    assume "n \<noteq> 40"
    with e have "this1 = sample_importer\<lparr>warnings := [unexpected_weapons]\<rparr>" by simp
    with k show False by (simp add: kept_def sample_importer_def new_importer_def)
  qed
  from run l e k show "\<exists>this1 text1 weapon1 dodge1 lastPercent1.
      turns sample_host sample_patterns 40 (sample_importer, [49, 13, 50, 10, 51], None, None, PFalse) =
        Returned (this1, text1, weapon1, dodge1, lastPercent1) \<and>
      combat_loop sample_host sample_patterns sample_importer [49, 13, 50, 10, 51] None PFalse 40 =
        Returned (this1, text1, weapon1, dodge1, 0) \<and>
      sample_importer\<lparr>warnings := [unexpected_weapons]\<rparr> =
        this1\<lparr>warnings := warnings this1 @ [unexpected_weapons]\<rparr> \<and>
      kept sample_importer this1"
    unfolding n40
    by (intro exI [of _ this1] exI [of _ text1] exI [of _ weapon1] exI [of _ dodge1]
          exI [of _ lastPercent1]) simp
next
  obtain r where r: "combat_turn sample_host sample_patterns sample_importer
        (js ''Rifle 45%, Pistol, Knife 30%'') None PFalse = r" by simp
  with sample_first_turn obtain imp1 tx1 w lp1 where
    turn: "combat_turn sample_host sample_patterns sample_importer
        (js ''Rifle 45%, Pistol, Knife 30%'') None PFalse = Returned (imp1, tx1, Some w, None, lp1)"
    and p: "group w ''percentage'' = Some (js ''45'')"
    by (cases r) (auto split: option.splits)
  from processCombat_budget [THEN conjunct2, THEN conjunct2, THEN conjunct1, rule_format, OF turn]
  obtain e where "parsed_attacks imp1 = Some (entries (parsed_attacks sample_importer) @ [e])"
    "skill_id e = lp1" "lp1 = PNum (Number sample_host (Some (js ''45'')))"
    using p by auto
  with turn sample_45 show "\<exists>imp1 tx1 w lp1 e.
      combat_turn sample_host sample_patterns sample_importer
        (js ''Rifle 45%, Pistol, Knife 30%'') None PFalse = Returned (imp1, tx1, Some w, None, lp1) \<and>
      parsed_attacks imp1 = Some (entries (parsed_attacks sample_importer) @ [e]) \<and>
      skill_id e = PNum (Fin 45) \<and> lp1 = PNum (Fin 45)"
    by (intro exI [of _ imp1] exI [of _ tx1] exI [of _ w] exI [of _ lp1] exI [of _ e]) simp
qed

lemma weapon_turn:
  assumes nd: "unmatched P ''weaponDodge'' (trim tx)"
    and r: "lookup_regExp P ''weapon'' = Some r" and m: "r (trim tx) = Some m"
    and req: "lp = PFalse \<longrightarrow> group m ''percentage'' \<noteq> None"
    and db: "parsed imp ''db'' = Some (JStr db)"
    and h: "halfdbRegExp P (strip_sign db) = Some h" and f: "fulldbRegExp P (strip_sign db) = Some f"
    and progress: "\<forall>d m. (h d = Some m \<or> f d = Some m) \<longrightarrow>
                      length (replace_str d (source m) []) < length d"
  shows "\<exists>imp1 e.
           combat_turn H P imp tx weapon lp =
             Returned (imp1, replace_str (trim tx) (source m) [10], Some m, None,
                       (case group m ''percentage'' of None \<Rightarrow> PTrue
                        | Some p \<Rightarrow> PNum (Number H (Some p)))) \<and>
           parsed imp1 = parsed imp \<and> parsed_skills imp1 = parsed_skills imp \<and>
           warnings imp1 = warnings imp \<and>
           parsed_attacks imp1 = Some (entries (parsed_attacks imp) @ [e]) \<and>
           skill_id e = (case group m ''percentage'' of None \<Rightarrow> PTrue
                         | Some p \<Rightarrow> PNum (Number H (Some p))) \<and>
           w_name e = cleanString (case group m ''name'' of None \<Rightarrow> [] | Some n \<Rightarrow> n)"
proof -
  from nd have c1: "check H P ''weaponDodge''
        (defaults\<lparr>saveKeys := False, text_opt := Some (trim tx)\<rparr>) imp = (Inr None, imp)"
    by (auto simp: check_def unmatched_def split: option.splits)
  from r m req have "check H P ''weapon''
        (defaults\<lparr>saveKeys := False, text_opt := Some (trim tx),
           requiredGroup := (if lp = PFalse then Some ''percentage'' else None)\<rparr>) imp =
      (Inr (Some m),
       imp\<lparr>this_text := trim (replace_str (this_text imp) (trim (source m)) [10])\<rparr>)"
    by (simp add: check_def defaults_def Let_def)
  then obtain t where c2: "check H P ''weapon''
        (defaults\<lparr>saveKeys := False, text_opt := Some (trim tx),
           requiredGroup := (if lp = PFalse then Some ''percentage'' else None)\<rparr>) imp =
      (Inr (Some m), imp\<lparr>this_text := t\<rparr>)" by (rule that)
  from replace_progress_step [OF progress] obtain res where
    "strip_db (Some h) (Some f)
       (translateRoll P (cleanString (case group m ''damage'' of None \<Rightarrow> [] | Some d \<Rightarrow> d)))
       False False = Returned res" by blast
  moreover obtain d1 a1 a2 where "res = (d1, a1, a2)" by (cases res)
  ultimately have "\<exists>res. on_weapon H P (imp\<lparr>this_text := t\<rparr>) (trim tx) m = Returned res"
    using db h f by (simp add: on_weapon_def Let_def)
  then obtain imp1 tx1 lp1 where
    ow: "on_weapon H P (imp\<lparr>this_text := t\<rparr>) (trim tx) m = Returned (imp1, tx1, lp1)"
    by (elim exE) (metis prod_cases3)
  with c1 c2 have turn: "combat_turn H P imp tx weapon lp = Returned (imp1, tx1, Some m, None, lp1)"
    unfolding combat_turn_def Let_def by simp
  from on_weapon_entry [OF ow] obtain e where
    e: "lp1 = (case group m ''percentage'' of None \<Rightarrow> PTrue
               | Some p \<Rightarrow> PNum (Number H (Some p)))"
       "tx1 = replace_str (trim tx) (source m) [10]"
       "parsed_skills imp1 = parsed_skills imp"
       "parsed_attacks imp1 = Some (entries (parsed_attacks imp) @ [e])"
       "skill_id e = lp1"
       "w_name e = cleanString (case group m ''name'' of None \<Rightarrow> [] | Some n \<Rightarrow> n)"
    by auto
  from on_weapon_keeps [OF ow] have k: "parsed imp1 = parsed imp" "warnings imp1 = warnings imp"
    by (simp_all add: kept_def)
  from turn e k show ?thesis
    by (intro exI [of _ imp1] exI [of _ e]) simp
qed

lemma idle_turn:
  assumes "trim tx = []" "unmatched P ''weaponDodge'' []" "unmatched P ''weapon'' []"
  shows "combat_turn H P imp tx weapon lp = Returned (imp, [], None, None, lp)"
proof -
  have c: "check H P key opts imp = (Inr None, imp)"
    if "unmatched P key []" "text_opt opts = Some []" for key opts
    using that by (auto simp: check_def unmatched_def split: option.splits)
  from assms(2) have c1: "check H P ''weaponDodge''
        (defaults\<lparr>saveKeys := False, text_opt := Some []\<rparr>) imp = (Inr None, imp)"
    by (rule c) simp
  from assms(3) have c2: "check H P ''weapon''
        (defaults\<lparr>saveKeys := False, text_opt := Some [],
           requiredGroup := g\<rparr>) imp =
      (Inr None, imp)" for g
    by (rule c) simp
  show ?thesis
    unfolding combat_turn_def Let_def assms(1) c1 by (simp add: c2 consume_line_def)
qed

lemma three_weapons:
  assumes weapon: "lookup_regExp P ''weapon'' = Some r"
    and t1: "trim text = t1" "t1 \<noteq> []" "unmatched P ''weaponDodge'' t1" "r t1 = Some m1"
            "group m1 ''percentage'' = Some p1"
    and t2: "trim (replace_str t1 (source m1) [10]) = t2" "unmatched P ''weaponDodge'' t2"
            "r t2 = Some m2" "group m2 ''percentage'' = None"
    and t3: "trim (replace_str t2 (source m2) [10]) = t3" "unmatched P ''weaponDodge'' t3"
            "r t3 = Some m3" "group m3 ''percentage'' = Some p3"
    and t4: "trim (replace_str t3 (source m3) [10]) = []" "unmatched P ''weaponDodge'' []"
            "r [] = None"
    and db: "parsed this ''db'' = Some (JStr db)"
    and h: "halfdbRegExp P (strip_sign db) = Some h" and f: "fulldbRegExp P (strip_sign db) = Some f"
    and progress: "\<forall>d m. (h d = Some m \<or> f d = Some m) \<longrightarrow>
                      length (replace_str d (source m) []) < length d"
  shows "\<exists>this' w1 w2 w3.
           processCombat H P this text = Returned this' \<and>
           parsed_attacks this' = Some (entries (parsed_attacks this) @ [w1, w2, w3]) \<and>
           w_name w1 = cleanString (case group m1 ''name'' of None \<Rightarrow> [] | Some n \<Rightarrow> n) \<and>
           skill_id w1 = PNum (Number H (Some p1)) \<and>
           w_name w2 = cleanString (case group m2 ''name'' of None \<Rightarrow> [] | Some n \<Rightarrow> n) \<and>
           skill_id w2 = PTrue \<and>
           w_name w3 = cleanString (case group m3 ''name'' of None \<Rightarrow> [] | Some n \<Rightarrow> n) \<and>
           skill_id w3 = PNum (Number H (Some p3)) \<and>
           parsed_skills this' = parsed_skills this \<and> warnings this' = warnings this"
proof -
  from t1 have u1: "unmatched P ''weaponDodge'' (trim text)" "r (trim text) = Some m1"
    "PFalse = PFalse \<longrightarrow> group m1 ''percentage'' \<noteq> None" by simp_all
  from weapon_turn [OF u1(1) weapon u1(2) u1(3) db h f progress, of H None] t1
  obtain imp1 w1 where
    turn1: "combat_turn H P this text None PFalse =
              Returned (imp1, replace_str t1 (source m1) [10], Some m1, None,
                        PNum (Number H (Some p1)))"
    and k1: "parsed imp1 = parsed this" "parsed_skills imp1 = parsed_skills this"
            "warnings imp1 = warnings this"
            "parsed_attacks imp1 = Some (entries (parsed_attacks this) @ [w1])"
    and w1: "skill_id w1 = PNum (Number H (Some p1))"
            "w_name w1 = cleanString (case group m1 ''name'' of None \<Rightarrow> [] | Some n \<Rightarrow> n)"
    by (elim exE conjE) simp
  from k1 db have db1: "parsed imp1 ''db'' = Some (JStr db)" by simp
  from t2 have u2: "unmatched P ''weaponDodge'' (trim (replace_str t1 (source m1) [10]))"
    "r (trim (replace_str t1 (source m1) [10])) = Some m2"
    "PNum (Number H (Some p1)) = PFalse \<longrightarrow> group m2 ''percentage'' \<noteq> None" by simp_all
  from weapon_turn [OF u2(1) weapon u2(2) u2(3) db1 h f progress, of H "Some m1"] t2
  obtain imp2 w2 where
    turn2: "combat_turn H P imp1 (replace_str t1 (source m1) [10]) (Some m1)
              (PNum (Number H (Some p1))) =
              Returned (imp2, replace_str t2 (source m2) [10], Some m2, None, PTrue)"
    and k2: "parsed imp2 = parsed imp1" "parsed_skills imp2 = parsed_skills imp1"
            "warnings imp2 = warnings imp1"
            "parsed_attacks imp2 = Some (entries (parsed_attacks imp1) @ [w2])"
    and w2: "skill_id w2 = PTrue"
            "w_name w2 = cleanString (case group m2 ''name'' of None \<Rightarrow> [] | Some n \<Rightarrow> n)"
    by (elim exE conjE) simp
  from k2 db1 have db2: "parsed imp2 ''db'' = Some (JStr db)" by simp
  from t3 have u3: "unmatched P ''weaponDodge'' (trim (replace_str t2 (source m2) [10]))"
    "r (trim (replace_str t2 (source m2) [10])) = Some m3"
    "PTrue = PFalse \<longrightarrow> group m3 ''percentage'' \<noteq> None" by simp_all
  from weapon_turn [OF u3(1) weapon u3(2) u3(3) db2 h f progress, of H "Some m2"] t3
  obtain imp3 w3 where
    turn3: "combat_turn H P imp2 (replace_str t2 (source m2) [10]) (Some m2) PTrue =
              Returned (imp3, replace_str t3 (source m3) [10], Some m3, None,
                        PNum (Number H (Some p3)))"
    and k3: "parsed imp3 = parsed imp2" "parsed_skills imp3 = parsed_skills imp2"
            "warnings imp3 = warnings imp2"
            "parsed_attacks imp3 = Some (entries (parsed_attacks imp2) @ [w3])"
    and w3: "skill_id w3 = PNum (Number H (Some p3))"
            "w_name w3 = cleanString (case group m3 ''name'' of None \<Rightarrow> [] | Some n \<Rightarrow> n)"
    by (elim exE conjE) simp
  from weapon t4 have "unmatched P ''weapon'' []" by (simp add: unmatched_def)
  from idle_turn [OF t4(1) t4(2) this]
  have turn4: "combat_turn H P imp3 (replace_str t3 (source m3) [10]) (Some m3)
                 (PNum (Number H (Some p3))) =
               Returned (imp3, [], None, None, PNum (Number H (Some p3)))" .
  have l4: "combat_loop H P imp3 (replace_str t3 (source m3) [10]) (Some m3)
              (PNum (Number H (Some p3))) 37 = Returned (imp3, [], None, None, 36)"
    by (subst combat_loop.simps) (simp add: turn4)
  have l3: "combat_loop H P imp2 (replace_str t2 (source m2) [10]) (Some m2) PTrue 38 =
              Returned (imp3, [], None, None, 36)"
    by (subst combat_loop.simps) (simp add: turn3 l4)
  have l2: "combat_loop H P imp1 (replace_str t1 (source m1) [10]) (Some m1)
              (PNum (Number H (Some p1))) 39 = Returned (imp3, [], None, None, 36)"
    by (subst combat_loop.simps) (simp add: turn2 l3)
  have l1: "combat_loop H P this text None PFalse 40 = Returned (imp3, [], None, None, 36)"
    by (subst combat_loop.simps) (simp add: turn1 l2)
  from t1 l1 have res: "processCombat H P this text = Returned imp3"
    by (simp add: processCombat_def)
  from k1 k2 k3 have "parsed_attacks imp3 = Some (entries (parsed_attacks this) @ [w1, w2, w3])"
    "parsed_skills imp3 = parsed_skills this" "warnings imp3 = warnings this"
    by (simp_all add: entries_def)
  with res w1 w2 w3 show ?thesis
    by (intro exI [of _ imp3] exI [of _ w1] exI [of _ w2] exI [of _ w3]) simp
qed

lemma sample_combat_run:
  "(case processCombat sample_host sample_patterns sample_importer
           (js ''Rifle 45%, Pistol, Knife 30%'') of
      Returned this' \<Rightarrow>
        map (\<lambda>w. (w_name w, skill_id w)) (entries (parsed_attacks this')) =
          [(js ''Rifle'', PNum (Fin 45)), (js ''Pistol'', PTrue), (js ''Knife'', PNum (Fin 30))]
    | Thrown e \<Rightarrow> False
    | Diverged \<Rightarrow> False)"
  by (simp add: processCombat_def ev)

text \<open>
  Claim C2, as the code has it. A weapon entry records the percentage that its own match
  states, and the value \<^verbatim>\<open>true\<close> in place of a number when its match states none: the
  percentage carried over from an earlier weapon is never copied into an entry. So whenever
  the weapon pattern finds three weapons in turn in a text, the first with a percentage, the
  second with none and the third with one, no dodge is found and nothing is left after them,
  \<^verbatim>\<open>processCombat\<close> records three weapons in that order, which hold the first percentage,
  \<^verbatim>\<open>true\<close> and the third percentage. The text \<^verbatim>\<open>Rifle 45%, Pistol, Knife 30%\<close> is read in this
  way by the pattern set of the examples, and its weapons hold 45, \<^verbatim>\<open>true\<close> and 30.
\<close>

theorem weapon_percentage_recorded:
  "(on_weapon H P imp tx weapon = Returned (imp2, tx2, lastPercent) \<longrightarrow>
      lastPercent = (case group weapon ''percentage'' of None \<Rightarrow> PTrue
                     | Some p \<Rightarrow> PNum (Number H (Some p))) \<and>
      (\<exists>w. parsed_attacks imp2 = Some (entries (parsed_attacks imp) @ [w]) \<and>
           skill_id w = lastPercent \<and>
           w_name w = cleanString (case group weapon ''name'' of None \<Rightarrow> [] | Some n \<Rightarrow> n))) \<and>
   (lookup_regExp P ''weapon'' = Some r \<longrightarrow>
    trim text = t1 \<longrightarrow> t1 \<noteq> [] \<longrightarrow>
    unmatched P ''weaponDodge'' t1 \<longrightarrow> r t1 = Some m1 \<longrightarrow>
    group m1 ''percentage'' = Some p1 \<longrightarrow>
    trim (replace_str t1 (source m1) [10]) = t2 \<longrightarrow>
    unmatched P ''weaponDodge'' t2 \<longrightarrow> r t2 = Some m2 \<longrightarrow>
    group m2 ''percentage'' = None \<longrightarrow>
    trim (replace_str t2 (source m2) [10]) = t3 \<longrightarrow>
    unmatched P ''weaponDodge'' t3 \<longrightarrow> r t3 = Some m3 \<longrightarrow>
    group m3 ''percentage'' = Some p3 \<longrightarrow>
    trim (replace_str t3 (source m3) [10]) = [] \<longrightarrow>
    unmatched P ''weaponDodge'' [] \<longrightarrow> r [] = None \<longrightarrow>
    parsed this ''db'' = Some (JStr db) \<longrightarrow>
    halfdbRegExp P (strip_sign db) = Some h \<longrightarrow> fulldbRegExp P (strip_sign db) = Some f \<longrightarrow>
    (\<forall>d m. (h d = Some m \<or> f d = Some m) \<longrightarrow> length (replace_str d (source m) []) < length d) \<longrightarrow>
    (\<exists>this' w1 w2 w3.
       processCombat H P this text = Returned this' \<and>
       parsed_attacks this' = Some (entries (parsed_attacks this) @ [w1, w2, w3]) \<and>
       w_name w1 = cleanString (case group m1 ''name'' of None \<Rightarrow> [] | Some n \<Rightarrow> n) \<and>
       skill_id w1 = PNum (Number H (Some p1)) \<and>
       w_name w2 = cleanString (case group m2 ''name'' of None \<Rightarrow> [] | Some n \<Rightarrow> n) \<and>
       skill_id w2 = PTrue \<and>
       w_name w3 = cleanString (case group m3 ''name'' of None \<Rightarrow> [] | Some n \<Rightarrow> n) \<and>
       skill_id w3 = PNum (Number H (Some p3)) \<and>
       parsed_skills this' = parsed_skills this \<and> warnings this' = warnings this))"
proof (rule conjI)
  show "on_weapon H P imp tx weapon = Returned (imp2, tx2, lastPercent) \<longrightarrow>
      lastPercent = (case group weapon ''percentage'' of None \<Rightarrow> PTrue
                     | Some p \<Rightarrow> PNum (Number H (Some p))) \<and>
      (\<exists>w. parsed_attacks imp2 = Some (entries (parsed_attacks imp) @ [w]) \<and>
           skill_id w = lastPercent \<and>
           w_name w = cleanString (case group weapon ''name'' of None \<Rightarrow> [] | Some n \<Rightarrow> n))"
  proof
    assume "on_weapon H P imp tx weapon = Returned (imp2, tx2, lastPercent)"
    from on_weapon_entry [OF this]
    show "lastPercent = (case group weapon ''percentage'' of None \<Rightarrow> PTrue
                     | Some p \<Rightarrow> PNum (Number H (Some p))) \<and>
      (\<exists>w. parsed_attacks imp2 = Some (entries (parsed_attacks imp) @ [w]) \<and>
           skill_id w = lastPercent \<and>
           w_name w = cleanString (case group weapon ''name'' of None \<Rightarrow> [] | Some n \<Rightarrow> n))"
      by (elim conjE, intro conjI)
  qed
next
  show "lookup_regExp P ''weapon'' = Some r \<longrightarrow>
    trim text = t1 \<longrightarrow> t1 \<noteq> [] \<longrightarrow>
    unmatched P ''weaponDodge'' t1 \<longrightarrow> r t1 = Some m1 \<longrightarrow>
    group m1 ''percentage'' = Some p1 \<longrightarrow>
    trim (replace_str t1 (source m1) [10]) = t2 \<longrightarrow>
    unmatched P ''weaponDodge'' t2 \<longrightarrow> r t2 = Some m2 \<longrightarrow>
    group m2 ''percentage'' = None \<longrightarrow>
    trim (replace_str t2 (source m2) [10]) = t3 \<longrightarrow>
    unmatched P ''weaponDodge'' t3 \<longrightarrow> r t3 = Some m3 \<longrightarrow>
    group m3 ''percentage'' = Some p3 \<longrightarrow>
    trim (replace_str t3 (source m3) [10]) = [] \<longrightarrow>
    unmatched P ''weaponDodge'' [] \<longrightarrow> r [] = None \<longrightarrow>
    parsed this ''db'' = Some (JStr db) \<longrightarrow>
    halfdbRegExp P (strip_sign db) = Some h \<longrightarrow> fulldbRegExp P (strip_sign db) = Some f \<longrightarrow>
    (\<forall>d m. (h d = Some m \<or> f d = Some m) \<longrightarrow> length (replace_str d (source m) []) < length d) \<longrightarrow>
    (\<exists>this' w1 w2 w3.
       processCombat H P this text = Returned this' \<and>
       parsed_attacks this' = Some (entries (parsed_attacks this) @ [w1, w2, w3]) \<and>
       w_name w1 = cleanString (case group m1 ''name'' of None \<Rightarrow> [] | Some n \<Rightarrow> n) \<and>
       skill_id w1 = PNum (Number H (Some p1)) \<and>
       w_name w2 = cleanString (case group m2 ''name'' of None \<Rightarrow> [] | Some n \<Rightarrow> n) \<and>
       skill_id w2 = PTrue \<and>
       w_name w3 = cleanString (case group m3 ''name'' of None \<Rightarrow> [] | Some n \<Rightarrow> n) \<and>
       skill_id w3 = PNum (Number H (Some p3)) \<and>
       parsed_skills this' = parsed_skills this \<and> warnings this' = warnings this)"
    by (intro impI, rule three_weapons)
qed

theorem weapon_percentage_recorded_witness:
  "\<exists>this' w1 w2 w3.
     processCombat sample_host sample_patterns sample_importer
       (js ''Rifle 45%, Pistol, Knife 30%'') = Returned this' \<and>
     parsed_attacks this' = Some [w1, w2, w3] \<and>
     w_name w1 = js ''Rifle'' \<and> skill_id w1 = PNum (Fin 45) \<and>
     w_name w2 = js ''Pistol'' \<and> skill_id w2 = PTrue \<and>
     w_name w3 = js ''Knife'' \<and> skill_id w3 = PNum (Fin 30) \<and>
     parsed_skills this' = None \<and> warnings this' = []"
proof -
  define m1 where "m1 = \<lparr>source = js ''Rifle 45%,'', index = 0,
    groups = Some [(''name'', Some (js ''Rifle'')), (''percentage'', Some (js ''45''))]\<rparr>"
  define m2 where "m2 = \<lparr>source = js ''Pistol,'', index = 0,
    groups = Some [(''name'', Some (js ''Pistol'')), (''percentage'', None)]\<rparr>"
  define m3 where "m3 = \<lparr>source = js ''Knife 30%'', index = 0,
    groups = Some [(''name'', Some (js ''Knife'')), (''percentage'', Some (js ''30''))]\<rparr>"
  note sv = unmatched_def m1_def m2_def m3_def replace_str.simps startsWith.simps
  have weapon: "lookup_regExp sample_patterns ''weapon'' = Some (anchored weapon_at)"
    by (simp add: lookup_regExp_def sample_patterns_def sample_regEx_def)
  have t1: "trim (js ''Rifle 45%, Pistol, Knife 30%'') = js ''Rifle 45%, Pistol, Knife 30%''"
    "js ''Rifle 45%, Pistol, Knife 30%'' \<noteq> []"
    "unmatched sample_patterns ''weaponDodge'' (js ''Rifle 45%, Pistol, Knife 30%'')"
    "anchored weapon_at (js ''Rifle 45%, Pistol, Knife 30%'') = Some m1"
    "group m1 ''percentage'' = Some (js ''45'')"
    by (simp_all add: sv ev)
  have t2: "trim (replace_str (js ''Rifle 45%, Pistol, Knife 30%'') (source m1) [10]) =
              js ''Pistol, Knife 30%''"
    "unmatched sample_patterns ''weaponDodge'' (js ''Pistol, Knife 30%'')"
    "anchored weapon_at (js ''Pistol, Knife 30%'') = Some m2"
    "group m2 ''percentage'' = None"
    by (simp_all add: sv ev)
  have t3: "trim (replace_str (js ''Pistol, Knife 30%'') (source m2) [10]) = js ''Knife 30%''"
    "unmatched sample_patterns ''weaponDodge'' (js ''Knife 30%'')"
    "anchored weapon_at (js ''Knife 30%'') = Some m3"
    "group m3 ''percentage'' = Some (js ''30'')"
    by (simp_all add: sv ev)
  have t4: "trim (replace_str (js ''Knife 30%'') (source m3) [10]) = []"
    "unmatched sample_patterns ''weaponDodge'' []"
    "anchored weapon_at [] = None"
    by (simp_all add: sv ev)
  have db: "parsed sample_importer ''db'' = Some (JStr (js ''0''))"
    by (simp add: sample_importer_def)
  have h: "halfdbRegExp sample_patterns (strip_sign (js ''0'')) = Some (literal ''+half db'')"
    and f: "fulldbRegExp sample_patterns (strip_sign (js ''0'')) = Some (literal ''+db'')"
    by (simp_all add: sample_patterns_def)
  have progress: "\<forall>d m. (literal ''+half db'' d = Some m \<or> literal ''+db'' d = Some m) \<longrightarrow>
                     length (replace_str d (source m) []) < length d"
    by (auto intro: literal_progress)
  have names: "cleanString (case group m1 ''name'' of None \<Rightarrow> [] | Some n \<Rightarrow> n) = js ''Rifle''"
    "cleanString (case group m2 ''name'' of None \<Rightarrow> [] | Some n \<Rightarrow> n) = js ''Pistol''"
    "cleanString (case group m3 ''name'' of None \<Rightarrow> [] | Some n \<Rightarrow> n) = js ''Knife''"
    "Number sample_host (Some (js ''45'')) = Fin 45"
    "Number sample_host (Some (js ''30'')) = Fin 30"
    "entries (parsed_attacks sample_importer) = []"
    "parsed_skills sample_importer = None" "warnings sample_importer = []"
    by (simp_all add: sv ev)
  from weapon_percentage_recorded [THEN conjunct2, rule_format,
      OF weapon t1 t2 t3 t4 db h f, of sample_host] progress
  show ?thesis
    unfolding names by simp
qed

text \<open>The second weapon of that text does not record 45.\<close>

theorem second_weapon_counterexample:
  "(case processCombat sample_host sample_patterns sample_importer
           (js ''Rifle 45%, Pistol, Knife 30%'') of
      Returned this' \<Rightarrow> map skill_id (entries (parsed_attacks this')) ! 1
    | Thrown e \<Rightarrow> PFalse
    | Diverged \<Rightarrow> PFalse) \<noteq> PNum (Fin 45)"
proof (cases "processCombat sample_host sample_patterns sample_importer
                (js ''Rifle 45%, Pistol, Knife 30%'')")
  case (Returned this')
  with sample_combat_run have
    m: "map (\<lambda>w. (w_name w, skill_id w)) (entries (parsed_attacks this')) =
          [(js ''Rifle'', PNum (Fin 45)), (js ''Pistol'', PTrue), (js ''Knife'', PNum (Fin 30))]"
    by simp
  have "map skill_id (entries (parsed_attacks this')) =
          map snd (map (\<lambda>w. (w_name w, skill_id w)) (entries (parsed_attacks this')))"
    by simp
  also have "\<dots> = [PNum (Fin 45), PTrue, PNum (Fin 30)]"
    unfolding m by simp
  finally show ?thesis using Returned by simp
next
  case (Thrown e)
  then show ?thesis by simp
next
  case Diverged
  then show ?thesis by simp
qed

section \<open>Range bands of a weapon and the split of a spell list\<close>

















section \<open>The header when no characteristic is found\<close>

lemma check_unmatched:
  "unmatched P key (case text_opt opts of None \<Rightarrow> this_text this | Some t \<Rightarrow> t) \<Longrightarrow>
   check H P key opts this = (Inr None, this)"
proof (cases "lookup_regExp P key")
  case None
  then show ?thesis by (simp add: check_def)
next
  case (Some r)
  assume "unmatched P key (case text_opt opts of None \<Rightarrow> this_text this | Some t \<Rightarrow> t)"
  with Some have "r (case text_opt opts of None \<Rightarrow> this_text this | Some t \<Rightarrow> t) = None"
    by (simp add: unmatched_def)
  with Some show ?thesis by (simp add: check_def)
qed

lemma scan_core_unmatched:
  "\<forall>key \<in> set ks. unmatched P key (this_text this) \<Longrightarrow>
   scan_core H P ks this m = Inr (this, m)"
proof (induction ks)
  case Nil
  then show ?case by simp
next
  case (Cons key ks)
  then have "check H P key (defaults\<lparr>otype := asNumber\<rparr>) this = (Inr None, this)"
    by (intro check_unmatched) (simp add: defaults_def)
  with Cons show ?case by (simp add: and_then_def)
qed

lemma from_header_unmatched:
  assumes "unmatched P ''name'' header" and "unmatched P ''age'' header"
    and "unmatched P ''occupation'' header" and "header = take m (this_text this)"
  shows "from_header H P this m =
           Inr (header_occupation None header
                  (this\<lparr>parsed := (parsed this)(''name'' \<mapsto> JStr (unnamedCharacter H))\<rparr>))"
proof -
  have c1: "check H P ''name'' (defaults\<lparr>text_opt := Some header\<rparr>) this = (Inr None, this)"
    using assms(1) by (intro check_unmatched) simp
  have c2: "check H P ''age'' (defaults\<lparr>text_opt := Some header\<rparr>) this' = (Inr None, this')" for this'
    using assms(2) by (intro check_unmatched) simp
  have c3: "check H P ''occupation'' (defaults\<lparr>text_opt := Some header\<rparr>) this' = (Inr None, this')" for this'
    using assms(3) by (intro check_unmatched) simp
  show ?thesis
    unfolding from_header_def Let_def assms(4) [symmetric]
    by (simp add: c1 c2 c3 and_then_def)
qed

lemma split_age_str:
  "parsed imp ''occupation'' = Some (JStr occ) \<Longrightarrow> parsed imp ''age'' = None \<Longrightarrow>
   split_age imp =
     Inr (if takeWhile is_digit occ \<noteq> [] \<and>
             startsWith (drop (length (takeWhile is_digit occ)) occ) [44] \<and>
             tl (drop (length (takeWhile is_digit occ)) occ) \<noteq> [] \<and>
             list_all (\<lambda>c. \<not> is_line_terminator c) (tl (drop (length (takeWhile is_digit occ)) occ))
          then imp\<lparr>parsed := (parsed imp)(''age'' \<mapsto> JStr (takeWhile is_digit occ),
                     ''occupation'' \<mapsto> JStr (trim (tl (drop (length (takeWhile is_digit occ)) occ))))\<rparr>
          else imp)"
  by (simp add: split_age_def Let_def)

text \<open>
  Claim C3, as the code has it. When no core characteristic pattern matches, the header is the
  whole normalised text, and name, age and occupation are looked for in it. When these three
  patterns do not match either, the default name is assigned. A blank text then gets no age
  and no occupation. Any other text gives an occupation text: the header up to and with its
  first full stop, its line breaks made spaces, trimmed, a last comma removed; and that part
  of the header is taken out of the buffer. The occupation text is recorded as the occupation,
  with no age, unless it is digits, a comma and at least one more character on one line: then
  the digits are recorded as the age and the trimmed rest as the occupation.
\<close>

theorem header_without_characteristics:
  assumes core: "\<forall>key \<in> set core_keys. unmatched P key (normalise text)"
    and header: "\<forall>key \<in> set [''name'', ''age'', ''occupation'']. unmatched P key (normalise text)"
    and fresh: "parsed this = Map.empty"
  shows "\<exists>this1. parse_header H P this text = Inr this1 \<and>
           parsed_skills this1 = parsed_skills this \<and> parsed_attacks this1 = parsed_attacks this \<and>
           parsed_spells this1 = parsed_spells this \<and> warnings this1 = warnings this \<and>
           (trim (normalise text) = [] \<longrightarrow>
              this_text this1 = normalise text \<and>
              parsed this1 = [''name'' \<mapsto> JStr (unnamedCharacter H)]) \<and>
           (trim (normalise text) \<noteq> [] \<longrightarrow>
              this_text this1 =
                replace_str (normalise text) (trim (first_sentence (normalise text))) [10] \<and>
              (let occ = drop_last_comma
                           (trim (collapse_breaks False (first_sentence (normalise text))));
                   age = takeWhile is_digit occ;
                   rest = drop (length age) occ
               in if age \<noteq> [] \<and> startsWith rest [44] \<and> tl rest \<noteq> [] \<and>
                     list_all (\<lambda>c. \<not> is_line_terminator c) (tl rest)
                  then parsed this1 =
                         [''name'' \<mapsto> JStr (unnamedCharacter H), ''age'' \<mapsto> JStr age,
                          ''occupation'' \<mapsto> JStr (trim (tl rest))]
                  else parsed this1 =
                         [''name'' \<mapsto> JStr (unnamedCharacter H), ''occupation'' \<mapsto> JStr occ]))"
proof -
  let ?t = "normalise text"
  let ?imp = "this\<lparr>this_text := ?t\<rparr>"
  let ?named = "?imp\<lparr>parsed := (parsed ?imp)(''name'' \<mapsto> JStr (unnamedCharacter H))\<rparr>"
  have scan: "scan_core H P core_keys ?imp (length ?t) = Inr (?imp, length ?t)"
    using core by (intro scan_core_unmatched) simp
  have from_h: "length ?t > 0 \<Longrightarrow>
                from_header H P ?imp (length ?t) = Inr (header_occupation None ?t ?named)"
    using header by (intro from_header_unmatched) simp_all
  show ?thesis
  proof (cases "trim ?t = []")
    case True
    have "(if length ?t > 0 then from_header H P ?imp (length ?t) else Inr ?named) = Inr ?named"
      using True from_h by (simp add: header_occupation_def)
    moreover have "split_age ?named = Inr ?named"
      by (simp add: split_age_def fresh)
    ultimately have "parse_header H P this text = Inr ?named"
      unfolding parse_header_def Let_def using scan by simp
    with True show ?thesis by (simp add: fresh)
  next
    case False
    then have pos: "length ?t > 0" by (auto simp: trim_def)
    let ?occ = "drop_last_comma (trim (collapse_breaks False (first_sentence ?t)))"
    let ?age = "takeWhile is_digit ?occ"
    let ?rest = "drop (length ?age) ?occ"
    let ?buffer = "replace_str ?t (trim (first_sentence ?t)) [10]"
    let ?two = "this\<lparr>this_text := ?buffer,
                     parsed := [''name'' \<mapsto> JStr (unnamedCharacter H), ''occupation'' \<mapsto> JStr ?occ]\<rparr>"
    have two: "header_occupation None ?t ?named = ?two"
      using False by (simp add: header_occupation_def fresh)
    with pos from_h have
      h: "(if length ?t > 0 then from_header H P ?imp (length ?t) else Inr ?named) = Inr ?two"
      by simp
    define ok where "ok \<longleftrightarrow> ?age \<noteq> [] \<and> startsWith ?rest [44] \<and> tl ?rest \<noteq> [] \<and>
                  list_all (\<lambda>c. \<not> is_line_terminator c) (tl ?rest)"
    let ?three = "this\<lparr>this_text := ?buffer,
                       parsed := [''name'' \<mapsto> JStr (unnamedCharacter H), ''occupation'' \<mapsto> JStr ?occ,
                                  ''age'' \<mapsto> JStr ?age, ''occupation'' \<mapsto> JStr (trim (tl ?rest))]\<rparr>"
    have "split_age ?two = Inr (if ok then ?three else ?two)"
      by (simp add: split_age_str ok_def Let_def)
    with h have ph: "parse_header H P this text = Inr (if ok then ?three else ?two)"
      unfolding parse_header_def Let_def using scan by simp
    have three: "parsed ?three =
            [''name'' \<mapsto> JStr (unnamedCharacter H), ''age'' \<mapsto> JStr ?age,
             ''occupation'' \<mapsto> JStr (trim (tl ?rest))]"
      by (rule ext) simp
    show ?thesis
      unfolding Let_def ok_def [symmetric]
    proof (cases ok)
      case True
      with ph False three show "\<exists>this1. parse_header H P this text = Inr this1 \<and>
           parsed_skills this1 = parsed_skills this \<and> parsed_attacks this1 = parsed_attacks this \<and>
           parsed_spells this1 = parsed_spells this \<and> warnings this1 = warnings this \<and>
           (trim ?t = [] \<longrightarrow> this_text this1 = ?t \<and>
              parsed this1 = [''name'' \<mapsto> JStr (unnamedCharacter H)]) \<and>
           (trim ?t \<noteq> [] \<longrightarrow> this_text this1 = ?buffer \<and>
              (if ok
               then parsed this1 =
                      [''name'' \<mapsto> JStr (unnamedCharacter H), ''age'' \<mapsto> JStr ?age,
                       ''occupation'' \<mapsto> JStr (trim (tl ?rest))]
               else parsed this1 =
                      [''name'' \<mapsto> JStr (unnamedCharacter H), ''occupation'' \<mapsto> JStr ?occ]))"
        by simp
    next
      case no: False
      with ph False show "\<exists>this1. parse_header H P this text = Inr this1 \<and>
           parsed_skills this1 = parsed_skills this \<and> parsed_attacks this1 = parsed_attacks this \<and>
           parsed_spells this1 = parsed_spells this \<and> warnings this1 = warnings this \<and>
           (trim ?t = [] \<longrightarrow> this_text this1 = ?t \<and>
              parsed this1 = [''name'' \<mapsto> JStr (unnamedCharacter H)]) \<and>
           (trim ?t \<noteq> [] \<longrightarrow> this_text this1 = ?buffer \<and>
              (if ok
               then parsed this1 =
                      [''name'' \<mapsto> JStr (unnamedCharacter H), ''age'' \<mapsto> JStr ?age,
                       ''occupation'' \<mapsto> JStr (trim (tl ?rest))]
               else parsed this1 =
                      [''name'' \<mapsto> JStr (unnamedCharacter H), ''occupation'' \<mapsto> JStr ?occ]))"
        by simp
    qed
  qed
qed

lemmas hd_ev = parse_header_def core_keys_def and_then_def check_def lookup_regExp_def
  sample_patterns_def sample_regEx_def sample_keys_def anchored_def name_at_def labelled_def
  labelled_at_def js_def trim_def is_space_def is_letter_def is_digit_def defaults_def Let_def
  normalise_def from_header_def header_occupation_def first_sentence_def drop_last_comma_def
  split_age_def new_importer_def sample_host_def save_key_def String_of_def
  is_newline_def is_line_terminator_def unmatched_def

theorem header_without_characteristics_witness:
  "(\<exists>this1. parse_header sample_host sample_patterns (new_importer []) (js ''Mechanic.'') = Inr this1 \<and>
            this_text this1 = [10] \<and>
            parsed this1 = [''name'' \<mapsto> JStr (js ''Unnamed Character''),
                            ''occupation'' \<mapsto> JStr (js ''Mechanic.'')]) \<and>
   (\<exists>this1. parse_header sample_host sample_patterns (new_importer []) (js ''34, Mechanic.'') = Inr this1 \<and>
            this_text this1 = [10] \<and>
            parsed this1 = [''name'' \<mapsto> JStr (js ''Unnamed Character''), ''age'' \<mapsto> JStr (js ''34''),
                            ''occupation'' \<mapsto> JStr (js ''Mechanic.'')]) \<and>
   (\<exists>this1. parse_header sample_host sample_patterns (new_importer []) (js ''  '') = Inr this1 \<and>
            this_text this1 = [] \<and>
            parsed this1 = [''name'' \<mapsto> JStr (js ''Unnamed Character'')])"
proof -
  have core: "\<forall>key \<in> set core_keys. unmatched sample_patterns key (normalise (js ''Mechanic.''))"
    by (simp add: hd_ev)
  have header: "\<forall>key \<in> set [''name'', ''age'', ''occupation''].
                  unmatched sample_patterns key (normalise (js ''Mechanic.''))"
    by (simp add: hd_ev)
  have core2: "\<forall>key \<in> set core_keys. unmatched sample_patterns key (normalise (js ''34, Mechanic.''))"
    by (simp add: hd_ev)
  have header2: "\<forall>key \<in> set [''name'', ''age'', ''occupation''].
                  unmatched sample_patterns key (normalise (js ''34, Mechanic.''))"
    by (simp add: hd_ev)
  have fresh: "parsed (new_importer []) = Map.empty" by (simp add: new_importer_def)
  have n1: "normalise (js ''Mechanic.'') = js ''Mechanic.''"
    and n2: "normalise (js ''34, Mechanic.'') = js ''34, Mechanic.''"
    by (simp_all add: normalise_def trim_def is_space_def js_def)
  from header_without_characteristics [OF core header fresh, of sample_host]
  have one: "\<exists>this1. parse_header sample_host sample_patterns (new_importer []) (js ''Mechanic.'') = Inr this1 \<and>
            this_text this1 = [10] \<and>
            parsed this1 = [''name'' \<mapsto> JStr (js ''Unnamed Character''),
                            ''occupation'' \<mapsto> JStr (js ''Mechanic.'')]"
    unfolding n1
    by (simp add: sample_host_def js_def trim_def is_space_def first_sentence_def
        drop_last_comma_def is_newline_def is_digit_def Let_def)
      (elim exE conjE, intro exI conjI, assumption+)
  from header_without_characteristics [OF core2 header2 fresh, of sample_host]
  have two: "\<exists>this1. parse_header sample_host sample_patterns (new_importer []) (js ''34, Mechanic.'') = Inr this1 \<and>
            this_text this1 = [10] \<and>
            parsed this1 = [''name'' \<mapsto> JStr (js ''Unnamed Character''), ''age'' \<mapsto> JStr (js ''34''),
                            ''occupation'' \<mapsto> JStr (js ''Mechanic.'')]"
    unfolding n2
    by (simp add: sample_host_def js_def trim_def is_space_def first_sentence_def
        drop_last_comma_def is_newline_def is_digit_def is_line_terminator_def Let_def)
      (elim exE conjE, intro exI conjI, assumption+)
  have core3: "\<forall>key \<in> set core_keys. unmatched sample_patterns key (normalise (js ''  ''))"
    by (simp add: hd_ev)
  have header3: "\<forall>key \<in> set [''name'', ''age'', ''occupation''].
                  unmatched sample_patterns key (normalise (js ''  ''))"
    by (simp add: hd_ev)
  have n3: "normalise (js ''  '') = []"
    by (simp add: normalise_def trim_def is_space_def js_def)
  from header_without_characteristics [OF core3 header3 fresh, of sample_host]
  have three: "\<exists>this1. parse_header sample_host sample_patterns (new_importer []) (js ''  '') = Inr this1 \<and>
            this_text this1 = [] \<and>
            parsed this1 = [''name'' \<mapsto> JStr (js ''Unnamed Character'')]"
    unfolding n3
    by (simp add: sample_host_def js_def trim_def)
      (elim exE conjE, intro exI conjI, assumption+)
  from one two three show ?thesis by (intro conjI)
qed

text \<open>
  A text with no characteristic in which the name pattern matches: the name is the one of the
  text, not the default one, and the rest of the header is recorded as the occupation.
\<close>

theorem header_fields_counterexample:
  "list_all (\<lambda>key. unmatched sample_patterns key (normalise (js ''Joe, Mechanic.''))) core_keys \<and>
   (case parse_header sample_host sample_patterns (new_importer []) (js ''Joe, Mechanic.'') of
      Inl e \<Rightarrow> (None, None)
    | Inr this1 \<Rightarrow> (parsed this1 ''name'', parsed this1 ''occupation'')) =
     (Some (JStr (js ''Joe'')), Some (JStr (js ''Mechanic.'')))"
  by (simp add: hd_ev)

section \<open>The defaults of the attribute parser\<close>

lemma save_key_other: "fst kv \<noteq> g \<Longrightarrow> save_key H t p kv g = p g"
  by (cases t) (simp_all add: save_key_def Let_def)

lemma foldl_save_other: "g \<notin> fst ` set gs \<Longrightarrow> foldl (save_key H t) p gs g = p g"
  by (induction gs arbitrary: p) (auto simp: save_key_other)

lemma check_result:
  "check H P key opts this = (Inr None, this) \<or>
   (\<exists>r m t. lookup_regExp P key = Some r \<and> r t = Some m \<and>
      (check H P key opts this = (Inl TypeError, this\<lparr>this_text := (if removeFromText opts then trim (replace_str (this_text this) (trim (source m)) [10]) else this_text this)\<rparr>) \<or>
       check H P key opts this = (Inr (Some m), this\<lparr>this_text := (if removeFromText opts then trim (replace_str (this_text this) (trim (source m)) [10]) else this_text this)\<rparr>) \<or>
       (\<exists>gs. groups m = Some gs \<and>
          check H P key opts this =
            (Inr (Some m),
             this\<lparr>this_text := (if removeFromText opts then trim (replace_str (this_text this) (trim (source m)) [10]) else this_text this),
                  parsed := foldl (save_key H (otype opts)) (parsed this) gs\<rparr>))))"
proof (cases "lookup_regExp P key")
  case None
  then show ?thesis by (simp add: check_def)
next
  case (Some r)
  show ?thesis
  proof (cases "r (case text_opt opts of None \<Rightarrow> this_text this | Some t \<Rightarrow> t)")
    case None
    with Some show ?thesis by (simp add: check_def)
  next
    case m: (Some m)
    show ?thesis
    proof (cases "groups m")
      case None
      with Some m show ?thesis
        by (auto simp: check_def Let_def)
    next
      case gs: (Some gs)
      with Some m show ?thesis
        by (auto simp: check_def Let_def)
    qed
  qed
qed

lemma check_parsed_other:
  assumes "\<not> writes P key g"
  shows "parsed (snd (check H P key opts this)) g = parsed this g"
proof -
  from check_result [of H P key opts this]
  consider "check H P key opts this = (Inr None, this)"
    | r m t x where "lookup_regExp P key = Some r" "r t = Some m"
        "check H P key opts this = (x, this\<lparr>this_text := (if removeFromText opts then trim (replace_str (this_text this) (trim (source m)) [10]) else this_text this)\<rparr>)"
    | r m t gs where "lookup_regExp P key = Some r" "r t = Some m" "groups m = Some gs"
        "check H P key opts this =
            (Inr (Some m),
             this\<lparr>this_text := (if removeFromText opts then trim (replace_str (this_text this) (trim (source m)) [10]) else this_text this),
                  parsed := foldl (save_key H (otype opts)) (parsed this) gs\<rparr>)"
    by blast
  then show ?thesis
  proof cases
    case 1
    then show ?thesis by simp
  next
    case 2
    then show ?thesis by simp
  next
    case 3
    with assms have "g \<notin> fst ` set gs" unfolding writes_def by blast
    with 3 show ?thesis by (simp add: foldl_save_other)
  qed
qed

lemma check_None_same: "fst (check H P key opts this) = Inr None \<Longrightarrow> snd (check H P key opts this) = this"
  using check_result [of H P key opts this] by auto

lemma next_step_Inr:
  assumes "next_step r f = Inr x"
  obtains y where "r = Inr y" and "f y = Inr x"
  using assms by (cases r) (simp_all add: next_step_def)

lemma and_then_Inr:
  assumes "and_then c f = Inr x"
  obtains m s where "c = (Inr m, s)" and "f m s = Inr x"
  using assms by (cases c; cases "fst c") (auto simp: and_then_def)

lemma just_check_other:
  assumes "just_check H P key t this = Inr this1" and "\<not> writes P key g"
  shows "parsed this1 g = parsed this g"
proof -
  from assms(1) obtain m s where c: "check H P key (defaults\<lparr>otype := t\<rparr>) this = (Inr m, s)" and "s = this1"
    unfolding just_check_def by (rule and_then_Inr) simp
  with check_parsed_other [OF assms(2), of H "defaults\<lparr>otype := t\<rparr>" this] show ?thesis by simp
qed

lemma field_or_zero_other:
  assumes "field_or_zero H P key noneKey this = Inr this1" and "\<not> writes P key g" and "key \<noteq> g"
  shows "parsed this1 g = parsed this g"
proof -
  from assms(1) obtain m s where c: "check H P key defaults this = (Inr m, s)"
    and r: "this1 = (if m = None \<or> matches_none H P noneKey (parsed s key) s
               then s\<lparr>parsed := (parsed s)(key \<mapsto> JStr (js ''0''))\<rparr> else s)"
    unfolding field_or_zero_def by (rule and_then_Inr) simp
  from check_parsed_other [OF assms(2), of H defaults this] c have "parsed s g = parsed this g" by simp
  with r assms(3) show ?thesis by simp
qed

lemma field_or_zero_zero:
  assumes "field_or_zero H P key noneKey this = Inr this1" and "absent_or_none H P key noneKey this"
  shows "parsed this1 key = Some (JStr (js ''0''))"
proof -
  from assms(1) obtain m s where c: "check H P key defaults this = (Inr m, s)"
    and r: "this1 = (if m = None \<or> matches_none H P noneKey (parsed s key) s
               then s\<lparr>parsed := (parsed s)(key \<mapsto> JStr (js ''0''))\<rparr> else s)"
    unfolding field_or_zero_def by (rule and_then_Inr) simp
  from assms(2) c have "m = None \<or> matches_none H P noneKey (parsed s key) s"
    by (simp add: absent_or_none_def)
  with r show ?thesis by simp
qed

lemma translate_field_other:
  "translate_field P key this = Inr this1 \<Longrightarrow> key \<noteq> g \<Longrightarrow> parsed this1 g = parsed this g"
  unfolding translate_field_def by (auto split: option.splits jsval.splits if_splits)

lemma translate_field_zero:
  "translate_field P key this = Inr this1 \<Longrightarrow> parsed this key = Some (JStr (js ''0'')) \<Longrightarrow>
   translateRoll P (js ''0'') = js ''0'' \<Longrightarrow> parsed this1 key = Some (JStr (js ''0''))"
  unfolding translate_field_def by auto

lemma attacks_per_round_cases:
  assumes "attacks_per_round H P this = Inr this1"
  shows "(fst (check H P ''attacksPerRound'' defaults this) = Inr None \<longrightarrow> this1 = this) \<and>
         (fst (check H P ''attacksPerRound'' defaults this) \<noteq> Inr None \<and>
          matches_none H P ''attacksPerRoundNone''
            (parsed (snd (check H P ''attacksPerRound'' defaults this)) ''attacksPerRound'')
            (snd (check H P ''attacksPerRound'' defaults this)) \<longrightarrow>
            parsed this1 ''attacksPerRound'' = Some (JStr (js ''0''))) \<and>
         (fst (check H P ''attacksPerRound'' defaults this) \<noteq> Inr None \<and>
          \<not> matches_none H P ''attacksPerRoundNone''
            (parsed (snd (check H P ''attacksPerRound'' defaults this)) ''attacksPerRound'')
            (snd (check H P ''attacksPerRound'' defaults this)) \<longrightarrow>
            this1 = snd (check H P ''attacksPerRound'' defaults this))"
proof -
  from assms obtain m s where c: "check H P ''attacksPerRound'' defaults this = (Inr m, s)"
    and r: "this1 = (if m \<noteq> None \<and> matches_none H P ''attacksPerRoundNone'' (parsed s ''attacksPerRound'') s
               then s\<lparr>parsed := (parsed s)(''attacksPerRound'' \<mapsto> JStr (js ''0''))\<rparr> else s)"
    unfolding attacks_per_round_def by (rule and_then_Inr) simp
  from c check_None_same [of H P "''attacksPerRound''" defaults this]
  have "m = None \<longrightarrow> s = this" by simp
  with c r show ?thesis by auto
qed

lemma attacks_per_round_other:
  assumes "attacks_per_round H P this = Inr this1" and "\<not> writes P ''attacksPerRound'' g"
    and "g \<noteq> ''attacksPerRound''"
  shows "parsed this1 g = parsed this g"
proof -
  from assms(1) obtain m s where c: "check H P ''attacksPerRound'' defaults this = (Inr m, s)"
    and r: "this1 = (if m \<noteq> None \<and> matches_none H P ''attacksPerRoundNone'' (parsed s ''attacksPerRound'') s
               then s\<lparr>parsed := (parsed s)(''attacksPerRound'' \<mapsto> JStr (js ''0''))\<rparr> else s)"
    unfolding attacks_per_round_def by (rule and_then_Inr) simp
  from check_parsed_other [OF assms(2), of H defaults this] c have "parsed s g = parsed this g" by simp
  with r assms(3) show ?thesis by simp
qed

lemma parse_attributes_stages:
  "parse_attributes H P this = next_step (before_attacks H P this) (attacks_per_round H P)"
  by (simp add: parse_attributes_def before_attacks_def before_armor_def)

text \<open>
  Claim C4. Let each field pattern of the attribute parser write no property that an earlier
  step has settled: none after the damage bonus writes \<^verbatim>\<open>db\<close>, none after the armor writes
  \<^verbatim>\<open>armor\<close>, none before the attacks per round writes \<^verbatim>\<open>attacksPerRound\<close>, which is
  absent at the start; and let the dice translation leave \<^verbatim>\<open>"0"\<close> as it is. Then after an
  attribute parsing that returns: the damage bonus is \<^verbatim>\<open>"0"\<close> whenever its pattern is absent
  from the buffer or its value matches the sentinel, and so is the armor, at the importer
  \<open>a\<close> in which the armor is looked for; and at the importer \<open>b\<close> in which the attacks per
  round are looked for, they stay absent when the pattern does not match, are \<^verbatim>\<open>"0"\<close> when it
  matches and the value matches the sentinel, and are the matched value otherwise.
\<close>

theorem attribute_defaults:
  assumes run: "parse_attributes H P this = Inr this'"
    and zero: "translateRoll P (js ''0'') = js ''0''"
    and db_only: "\<forall>key \<in> set [''build'', ''armor'', ''mov'', ''lck'', ''sanLoss'', ''attacksPerRound''].
                    \<not> writes P key ''db''"
    and armor_only: "\<forall>key \<in> set [''mov'', ''lck'', ''sanLoss'', ''attacksPerRound'']. \<not> writes P key ''armor''"
    and attacks_only: "\<forall>key \<in> set [''db'', ''build'', ''armor'', ''mov'', ''lck'', ''sanLoss''].
                         \<not> writes P key ''attacksPerRound''"
    and fresh: "parsed this ''attacksPerRound'' = None"
  shows "\<exists>a b. before_armor H P this = Inr a \<and> before_attacks H P this = Inr b \<and>
           (absent_or_none H P ''db'' ''dbNone'' this \<longrightarrow> parsed this' ''db'' = Some (JStr (js ''0''))) \<and>
           (absent_or_none H P ''armor'' ''armorNone'' a \<longrightarrow>
              parsed this' ''armor'' = Some (JStr (js ''0''))) \<and>
           (fst (check H P ''attacksPerRound'' defaults b) = Inr None \<longrightarrow>
              parsed this' ''attacksPerRound'' = None) \<and>
           (fst (check H P ''attacksPerRound'' defaults b) \<noteq> Inr None \<and>
            matches_none H P ''attacksPerRoundNone''
              (parsed (snd (check H P ''attacksPerRound'' defaults b)) ''attacksPerRound'')
              (snd (check H P ''attacksPerRound'' defaults b)) \<longrightarrow>
              parsed this' ''attacksPerRound'' = Some (JStr (js ''0''))) \<and>
           (fst (check H P ''attacksPerRound'' defaults b) \<noteq> Inr None \<and>
            \<not> matches_none H P ''attacksPerRoundNone''
              (parsed (snd (check H P ''attacksPerRound'' defaults b)) ''attacksPerRound'')
              (snd (check H P ''attacksPerRound'' defaults b)) \<longrightarrow>
              parsed this' ''attacksPerRound'' =
                parsed (snd (check H P ''attacksPerRound'' defaults b)) ''attacksPerRound'')"
proof -
  from run obtain b where b: "before_attacks H P this = Inr b"
    and s9: "attacks_per_round H P b = Inr this'"
    unfolding parse_attributes_stages by (rule next_step_Inr)
  from b obtain s7 where s8: "translate_field P ''sanLoss'' s7 = Inr b"
    and r7: "next_step (next_step (next_step (next_step
       (before_armor H P this)
       (field_or_zero H P ''armor'' ''armorNone''))
       (just_check H P ''mov'' asNumber))
       (just_check H P ''lck'' asNumber))
       (just_check H P ''sanLoss'' asString) = Inr s7"
    unfolding before_attacks_def by (rule next_step_Inr)
  from r7 obtain s6 where s7: "just_check H P ''sanLoss'' asString s6 = Inr s7"
    and r6: "next_step (next_step (next_step
       (before_armor H P this)
       (field_or_zero H P ''armor'' ''armorNone''))
       (just_check H P ''mov'' asNumber))
       (just_check H P ''lck'' asNumber) = Inr s6"
    by (rule next_step_Inr)
  from r6 obtain s5 where s6: "just_check H P ''lck'' asNumber s5 = Inr s6"
    and r5: "next_step (next_step
       (before_armor H P this)
       (field_or_zero H P ''armor'' ''armorNone''))
       (just_check H P ''mov'' asNumber) = Inr s5"
    by (rule next_step_Inr)
  from r5 obtain s4 where s5: "just_check H P ''mov'' asNumber s4 = Inr s5"
    and r4: "next_step (before_armor H P this) (field_or_zero H P ''armor'' ''armorNone'') = Inr s4"
    by (rule next_step_Inr)
  from r4 obtain a where s4: "field_or_zero H P ''armor'' ''armorNone'' a = Inr s4"
    and a: "before_armor H P this = Inr a"
    by (rule next_step_Inr)
  from a obtain s2 where s3: "just_check H P ''build'' asString s2 = Inr a"
    and r2: "next_step (field_or_zero H P ''db'' ''dbNone'' this) (translate_field P ''db'') = Inr s2"
    unfolding before_armor_def by (rule next_step_Inr)
  from r2 obtain s1 where s2: "translate_field P ''db'' s1 = Inr s2"
    and s1: "field_or_zero H P ''db'' ''dbNone'' this = Inr s1"
    by (rule next_step_Inr)
  have db_kept: "parsed this' ''db'' = parsed s2 ''db''"
    using db_only
      just_check_other [OF s3, of "''db''"] field_or_zero_other [OF s4, of "''db''"]
      just_check_other [OF s5, of "''db''"] just_check_other [OF s6, of "''db''"]
      just_check_other [OF s7, of "''db''"] translate_field_other [OF s8, of "''db''"]
      attacks_per_round_other [OF s9, of "''db''"]
    by simp
  have armor_kept: "parsed this' ''armor'' = parsed s4 ''armor''"
    using armor_only
      just_check_other [OF s5, of "''armor''"] just_check_other [OF s6, of "''armor''"]
      just_check_other [OF s7, of "''armor''"] translate_field_other [OF s8, of "''armor''"]
      attacks_per_round_other [OF s9, of "''armor''"]
    by simp
  have attacks_kept: "parsed b ''attacksPerRound'' = None"
    using attacks_only fresh
      field_or_zero_other [OF s1, of "''attacksPerRound''"]
      translate_field_other [OF s2, of "''attacksPerRound''"]
      just_check_other [OF s3, of "''attacksPerRound''"]
      field_or_zero_other [OF s4, of "''attacksPerRound''"]
      just_check_other [OF s5, of "''attacksPerRound''"] just_check_other [OF s6, of "''attacksPerRound''"]
      just_check_other [OF s7, of "''attacksPerRound''"]
      translate_field_other [OF s8, of "''attacksPerRound''"]
    by simp
  have c1: "absent_or_none H P ''db'' ''dbNone'' this \<longrightarrow> parsed this' ''db'' = Some (JStr (js ''0''))"
  proof
    assume "absent_or_none H P ''db'' ''dbNone'' this"
    with s1 have "parsed s1 ''db'' = Some (JStr (js ''0''))" by (rule field_or_zero_zero)
    with s2 zero have "parsed s2 ''db'' = Some (JStr (js ''0''))" by (simp add: translate_field_zero)
    with db_kept show "parsed this' ''db'' = Some (JStr (js ''0''))" by simp
  qed
  have c2: "absent_or_none H P ''armor'' ''armorNone'' a \<longrightarrow>
              parsed this' ''armor'' = Some (JStr (js ''0''))"
  proof
    assume "absent_or_none H P ''armor'' ''armorNone'' a"
    with s4 have "parsed s4 ''armor'' = Some (JStr (js ''0''))" by (rule field_or_zero_zero)
    with armor_kept show "parsed this' ''armor'' = Some (JStr (js ''0''))" by simp
  qed
  from attacks_per_round_cases [OF s9] attacks_kept
  have c3: "(fst (check H P ''attacksPerRound'' defaults b) = Inr None \<longrightarrow>
              parsed this' ''attacksPerRound'' = None) \<and>
           (fst (check H P ''attacksPerRound'' defaults b) \<noteq> Inr None \<and>
            matches_none H P ''attacksPerRoundNone''
              (parsed (snd (check H P ''attacksPerRound'' defaults b)) ''attacksPerRound'')
              (snd (check H P ''attacksPerRound'' defaults b)) \<longrightarrow>
              parsed this' ''attacksPerRound'' = Some (JStr (js ''0''))) \<and>
           (fst (check H P ''attacksPerRound'' defaults b) \<noteq> Inr None \<and>
            \<not> matches_none H P ''attacksPerRoundNone''
              (parsed (snd (check H P ''attacksPerRound'' defaults b)) ''attacksPerRound'')
              (snd (check H P ''attacksPerRound'' defaults b)) \<longrightarrow>
              parsed this' ''attacksPerRound'' =
                parsed (snd (check H P ''attacksPerRound'' defaults b)) ''attacksPerRound'')"
    by auto
  show ?thesis
    by (intro exI [of _ a] exI [of _ b] conjI;
        (rule a b c1 c2 | rule c3 [THEN conjunct1] | rule c3 [THEN conjunct2, THEN conjunct1] |
         rule c3 [THEN conjunct2, THEN conjunct2]))
qed

lemmas at_ev = parse_attributes_def before_attacks_def before_armor_def next_step_def
  field_or_zero_def translate_field_def just_check_def attacks_per_round_def matches_none_def
  absent_or_none_def and_then_def check_def lookup_regExp_def sample_patterns_def
  sample_regEx_def sample_keys_def labelled_def labelled_at_def literal_def js_def trim_def
  is_space_def defaults_def Let_def new_importer_def sample_host_def save_key_def String_of_def
  to_str_def translateRoll_def

lemma sample_lookups:
  "lookup_regExp sample_patterns ''db'' = Some (labelled ''DB'' ''db'')"
  "lookup_regExp sample_patterns ''armor'' = Some (labelled ''Armor'' ''armor'')"
  "lookup_regExp sample_patterns ''attacksPerRound'' = Some (labelled ''Attacks'' ''attacksPerRound'')"
  "lookup_regExp sample_patterns ''build'' = None"
  "lookup_regExp sample_patterns ''mov'' = None"
  "lookup_regExp sample_patterns ''lck'' = None"
  "lookup_regExp sample_patterns ''sanLoss'' = None"
  by (simp_all add: lookup_regExp_def sample_patterns_def sample_regEx_def sample_keys_def)

theorem attribute_defaults_witness:
  "\<exists>this'. parse_attributes sample_host sample_patterns (new_importer (js ''DB none Attacks none'')) =
             Inr this' \<and>
           parsed this' ''db'' = Some (JStr (js ''0'')) \<and>
           parsed this' ''armor'' = Some (JStr (js ''0'')) \<and>
           parsed this' ''attacksPerRound'' = Some (JStr (js ''0''))"
proof -
  let ?imp = "new_importer (js ''DB none Attacks none'')"
  have "case parse_attributes sample_host sample_patterns ?imp of Inl e \<Rightarrow> False | Inr t \<Rightarrow> True"
    by (simp add: at_ev)
  then obtain this' where run: "parse_attributes sample_host sample_patterns ?imp = Inr this'"
    by (cases "parse_attributes sample_host sample_patterns ?imp") simp_all
  have zero: "translateRoll sample_patterns (js ''0'') = js ''0''"
    by (simp add: translateRoll_def sample_patterns_def)
  have db_only: "\<forall>key \<in> set [''build'', ''armor'', ''mov'', ''lck'', ''sanLoss'', ''attacksPerRound''].
                    \<not> writes sample_patterns key ''db''"
    using writes_labelled [OF sample_lookups(2), of "''db''"]
      writes_labelled [OF sample_lookups(3), of "''db''"]
    by (auto simp: writes_unknown sample_lookups)
  have armor_only: "\<forall>key \<in> set [''mov'', ''lck'', ''sanLoss'', ''attacksPerRound''].
                      \<not> writes sample_patterns key ''armor''"
    using writes_labelled [OF sample_lookups(3), of "''armor''"]
    by (auto simp: writes_unknown sample_lookups)
  have attacks_only: "\<forall>key \<in> set [''db'', ''build'', ''armor'', ''mov'', ''lck'', ''sanLoss''].
                         \<not> writes sample_patterns key ''attacksPerRound''"
    using writes_labelled [OF sample_lookups(1), of "''attacksPerRound''"]
      writes_labelled [OF sample_lookups(2), of "''attacksPerRound''"]
    by (auto simp: writes_unknown sample_lookups)
  have fresh: "parsed ?imp ''attacksPerRound'' = None" by (simp add: new_importer_def)
  from attribute_defaults [OF run zero db_only armor_only attacks_only fresh]
  obtain a b where a: "before_armor sample_host sample_patterns ?imp = Inr a"
    and b: "before_attacks sample_host sample_patterns ?imp = Inr b"
    and c1: "absent_or_none sample_host sample_patterns ''db'' ''dbNone'' ?imp \<longrightarrow>
               parsed this' ''db'' = Some (JStr (js ''0''))"
    and c2: "absent_or_none sample_host sample_patterns ''armor'' ''armorNone'' a \<longrightarrow>
               parsed this' ''armor'' = Some (JStr (js ''0''))"
    and c3: "fst (check sample_host sample_patterns ''attacksPerRound'' defaults b) \<noteq> Inr None \<and>
            matches_none sample_host sample_patterns ''attacksPerRoundNone''
              (parsed (snd (check sample_host sample_patterns ''attacksPerRound'' defaults b)) ''attacksPerRound'')
              (snd (check sample_host sample_patterns ''attacksPerRound'' defaults b)) \<longrightarrow>
              parsed this' ''attacksPerRound'' = Some (JStr (js ''0''))"
    by (elim exE conjE)
  have h1: "absent_or_none sample_host sample_patterns ''db'' ''dbNone'' ?imp"
    by (simp add: at_ev)
  have "case before_armor sample_host sample_patterns ?imp of Inl e \<Rightarrow> False
        | Inr a \<Rightarrow> absent_or_none sample_host sample_patterns ''armor'' ''armorNone'' a"
    by (simp add: at_ev)
  with a have h2: "absent_or_none sample_host sample_patterns ''armor'' ''armorNone'' a" by simp
  have "case before_attacks sample_host sample_patterns ?imp of Inl e \<Rightarrow> False
        | Inr b \<Rightarrow>
            fst (check sample_host sample_patterns ''attacksPerRound'' defaults b) \<noteq> Inr None \<and>
            matches_none sample_host sample_patterns ''attacksPerRoundNone''
              (parsed (snd (check sample_host sample_patterns ''attacksPerRound'' defaults b)) ''attacksPerRound'')
              (snd (check sample_host sample_patterns ''attacksPerRound'' defaults b))"
    by (simp add: at_ev)
  with b have h3: "fst (check sample_host sample_patterns ''attacksPerRound'' defaults b) \<noteq> Inr None \<and>
            matches_none sample_host sample_patterns ''attacksPerRoundNone''
              (parsed (snd (check sample_host sample_patterns ''attacksPerRound'' defaults b)) ''attacksPerRound'')
              (snd (check sample_host sample_patterns ''attacksPerRound'' defaults b))"
    by simp
  from c1 h1 have r1: "parsed this' ''db'' = Some (JStr (js ''0''))" ..
  from c2 h2 have r2: "parsed this' ''armor'' = Some (JStr (js ''0''))" ..
  from c3 h3 have r3: "parsed this' ''attacksPerRound'' = Some (JStr (js ''0''))" ..
  from run r1 r2 r3 show ?thesis by (intro exI conjI)
qed

end
